theory Spec2Isabelle
  imports Complex_Main
begin

section \<open>Grid density analysis of the location intelligence tool\<close>

text \<open>
  This theory embeds \<open>LocationIntelligenceTool.analyze_density\<close> and
  \<open>LocationIntelligenceTool.reverse_geocode\<close> of \<open>src/main.py\<close>.

  Conventions of the embedding:
  \<^item> Python floats are exact rationals (\<^typ>\<open>rat\<close>): rounding, infinities and NaN are
    not modelled. Python integers are \<^typ>\<open>int\<close>; where an integer meets a float it is
    converted to a float first, which raises \<open>OverflowError\<close> beyond the range of a
    double. Close to the end of that range, near \<open>2^1024\<close>, rounding decides whether a
    quotient of floats overflows, so the properties that promise a report are stated for
    grid sizes of magnitude up to \<open>2^1000\<close>.
  \<^item> A place is the dictionary built by \<open>search_places\<close>; only its \<open>lat\<close> and
    \<open>lng\<close> entries are read by the analysis.
  \<^item> The dictionary \<open>grid_counts\<close> is an association list in insertion order, which
    is the iteration order of a Python dictionary.
  \<^item> An exception raised inside the \<open>try\<close> block is a value of \<open>exn\<close>; the handler
    turns it into the error dictionary \<open>{"error": str(e)}\<close>.
  \<^item> The network is a parameter \<open>geo\<close>: the outcome of the \<open>n\<close>-th reverse-geocoding
    request for a coordinate pair.
\<close>

subsection \<open>Data\<close>

text \<open>A place as \<open>search_places\<close> builds it; the rating is a number or \<open>"N/A"\<close>.\<close>

record place =
  name :: string
  lat :: rat
  lng :: rat
  rating :: "rat option"
  address :: string

text \<open>The argument \<open>places\<close> is an arbitrary Python object: \<open>search_places\<close> returns a
  list of places or an error dictionary.\<close>

datatype pyobj = PyList "place list" | PyDict "(string \<times> string) list" | PyNone

datatype exn = ZeroDivisionError | ValueError | OverflowError

text \<open>\<open>NoPlaces\<close> is \<open>{"error": "No places to analyze"}\<close>; \<open>Caught e\<close> is
  \<open>{"error": str(e)}\<close>.\<close>

datatype error = NoPlaces | Caught exn

record hotspot =
  grid_cell :: string
  count :: int
  center_lat :: rat
  center_lng :: rat
  approximate_location :: string

record report =
  total_places :: int
  grid_size :: int
  hotspots :: "hotspot list"

text \<open>The outcome of one request of \<open>reverse_geocode\<close>: the request or the decoding of
  its body raised, or a JSON object arrived, of which the code reads \<open>status\<close> and, of
  each entry of \<open>results\<close>, \<open>formatted_address\<close>.\<close>

datatype geo_response =
  RequestRaised
  | GeoData "string option" "string option list"

type_synonym geo = "nat \<Rightarrow> rat \<Rightarrow> rat \<Rightarrow> geo_response"

record grid =
  min_lat :: rat
  min_lng :: rat
  lat_step :: rat
  lng_step :: rat

subsection \<open>Integers and strings\<close>

definition digit_char :: "nat \<Rightarrow> char" where
  "digit_char d = char_of (48 + d)"

definition is_digit :: "char \<Rightarrow> bool" where
  "is_digit c = (48 \<le> (of_char c :: nat) \<and> (of_char c :: nat) \<le> 57)"

definition digit_val :: "char \<Rightarrow> nat" where
  "digit_val c = of_char c - 48"

text \<open>\<open>str(n)\<close> for a natural number: decimal digits, no leading zero.\<close>

fun str_nat :: "nat \<Rightarrow> string" where
  "str_nat n = (if n < 10 then [digit_char n] else str_nat (n div 10) @ [digit_char (n mod 10)])"

declare str_nat.simps [simp del]

text \<open>\<open>str(i)\<close>, which is what an f-string writes for an integer. (The limit that
  recent versions of CPython put on the number of digits, 4300 by default, is not
  modelled: an integer that is written on the way to a report is below \<open>2^1024\<close>.)\<close>

definition str_int :: "int \<Rightarrow> string" where
  "str_int i = (if i < 0 then CHR ''-'' # str_nat (nat (- i)) else str_nat (nat i))"

definition nat_of_str :: "string \<Rightarrow> nat option" where
  "nat_of_str s =
     (if s \<noteq> [] \<and> list_all is_digit s
      then Some (foldl (\<lambda>a c. 10 * a + digit_val c) 0 s) else None)"

text \<open>\<open>int(s)\<close> on a string: an optional sign and decimal digits; \<open>None\<close> is the
  \<open>ValueError\<close>. Surrounding blanks and underscores between digits, which \<open>str\<close> never
  writes, are not modelled.\<close>

definition int_of_str :: "string \<Rightarrow> int option" where
  "int_of_str s =
     (case s of
        [] \<Rightarrow> None
      | c # ds \<Rightarrow>
          if c = CHR ''-'' then map_option (\<lambda>n. - int n) (nat_of_str ds)
          else if c = CHR ''+'' then map_option int (nat_of_str ds)
          else map_option int (nat_of_str s))"

text \<open>\<open>s.split(c)\<close> for a one-character separator.\<close>

fun split_on :: "char \<Rightarrow> string \<Rightarrow> string list" where
  "split_on c [] = [[]]"
| "split_on c (x # xs) =
     (if x = c then [] # split_on c xs
      else (case split_on c xs of
              [] \<Rightarrow> [[x]]
            | w # ws \<Rightarrow> (x # w) # ws))"

text \<open>\<open>int(x)\<close> on a float truncates towards zero.\<close>

definition int_of_float :: "rat \<Rightarrow> int" where
  "int_of_float x = (if 0 \<le> x then \<lfloor>x\<rfloor> else \<lceil>x\<rceil>)"

text \<open>The conversion of an integer operand of a float operation. The largest double is
  \<open>2^1024 - 2^971\<close>; an integer that rounds to \<open>2^1024\<close>, that is one of magnitude
  \<open>2^1024 - 2^970\<close> or more, raises \<open>OverflowError\<close>.\<close>

definition float_limit :: int where
  "float_limit = 2 ^ 1024 - 2 ^ 970"

definition float_of_int :: "int \<Rightarrow> exn + rat" where
  "float_of_int i = (if float_limit \<le> \<bar>i\<bar> then Inl OverflowError else Inr (of_int i))"

subsection \<open>Dictionaries, \<open>min\<close>, \<open>max\<close> and \<open>sorted\<close>\<close>

fun dict_get :: "('k \<times> 'v) list \<Rightarrow> 'k \<Rightarrow> 'v \<Rightarrow> 'v" where
  "dict_get [] k d = d"
| "dict_get ((k', v) # kvs) k d = (if k' = k then v else dict_get kvs k d)"

text \<open>\<open>d[k] = v\<close>: an existing key keeps its position, a new key goes last.\<close>

fun dict_set :: "('k \<times> 'v) list \<Rightarrow> 'k \<Rightarrow> 'v \<Rightarrow> ('k \<times> 'v) list" where
  "dict_set [] k v = [(k, v)]"
| "dict_set ((k', v') # kvs) k v =
     (if k' = k then (k', v) # kvs else (k', v') # dict_set kvs k v)"

text \<open>\<open>min\<close> and \<open>max\<close> of a list raise \<open>ValueError\<close> on the empty list.\<close>

fun py_min :: "rat list \<Rightarrow> exn + rat" where
  "py_min [] = Inl ValueError"
| "py_min (x # xs) = Inr (fold min xs x)"

fun py_max :: "rat list \<Rightarrow> exn + rat" where
  "py_max [] = Inl ValueError"
| "py_max (x # xs) = Inr (fold max xs x)"

text \<open>\<open>sorted(xs, key=key, reverse=True)\<close>: the sort is stable and compares as if every
  comparison were reversed, so that elements with equal keys keep their order.\<close>

definition sorted_reverse :: "('a \<Rightarrow> int) \<Rightarrow> 'a list \<Rightarrow> 'a list" where
  "sorted_reverse key xs = sort_key (\<lambda>x. - key x) xs"

subsection \<open>\<open>reverse_geocode\<close>\<close>

text \<open>Every exception is caught by the method and the fallback string returned.\<close>

definition reverse_geocode :: "geo_response \<Rightarrow> string" where
  "reverse_geocode resp =
     (case resp of
        RequestRaised \<Rightarrow> ''Unknown location''
      | GeoData status results \<Rightarrow>
          if status = Some ''OK'' \<and> results \<noteq> []
          then (case hd results of
                  None \<Rightarrow> ''Unknown location''
                | Some a \<Rightarrow> a)
          else ''Unknown location'')"

subsection \<open>\<open>analyze_density\<close>\<close>

text \<open>True division of a float by an integer: the integer is converted, then a zero
  divisor raises.\<close>

definition truediv :: "rat \<Rightarrow> int \<Rightarrow> exn + rat" where
  "truediv a b =
     (case float_of_int b of
        Inl e \<Rightarrow> Inl e
      | Inr d \<Rightarrow> if d = 0 then Inl ZeroDivisionError else Inr (a / d))"

text \<open>Lines 213 and 214: the step of one axis.\<close>

definition axis_step :: "rat \<Rightarrow> rat \<Rightarrow> int \<Rightarrow> exn + rat" where
  "axis_step lo hi g = (if hi \<noteq> lo then truediv (hi - lo) g else Inr (1 / 100))"

text \<open>Lines 219 and 220: the bin of a coordinate before clamping.\<close>

definition raw_bin :: "rat \<Rightarrow> rat \<Rightarrow> rat \<Rightarrow> int" where
  "raw_bin v lo step = (if step \<noteq> 0 then int_of_float ((v - lo) / step) else 0)"

text \<open>Lines 222 to 225: the clamp.\<close>

definition clamp_bin :: "int \<Rightarrow> int \<Rightarrow> int" where
  "clamp_bin b g = (if b \<ge> g then g - 1 else b)"

definition lat_bin :: "grid \<Rightarrow> int \<Rightarrow> place \<Rightarrow> int" where
  "lat_bin gr g p = clamp_bin (raw_bin (lat p) (min_lat gr) (lat_step gr)) g"

definition lng_bin :: "grid \<Rightarrow> int \<Rightarrow> place \<Rightarrow> int" where
  "lng_bin gr g p = clamp_bin (raw_bin (lng p) (min_lng gr) (lng_step gr)) g"

text \<open>Line 227.\<close>

definition grid_key :: "grid \<Rightarrow> int \<Rightarrow> place \<Rightarrow> string" where
  "grid_key gr g p = str_int (lat_bin gr g p) @ '','' @ str_int (lng_bin gr g p)"

text \<open>Lines 218 to 228: the counting loop.\<close>

fun count_places :: "grid \<Rightarrow> int \<Rightarrow> place list \<Rightarrow> (string \<times> int) list \<Rightarrow> (string \<times> int) list" where
  "count_places gr g [] grid_counts = grid_counts"
| "count_places gr g (p # ps) grid_counts =
     count_places gr g ps
       (dict_set grid_counts (grid_key gr g p) (dict_get grid_counts (grid_key gr g p) 0 + 1))"

text \<open>Lines 206 to 214: bounding box and steps.\<close>

definition make_grid :: "place list \<Rightarrow> int \<Rightarrow> exn + grid" where
  "make_grid places g =
     (case py_min (map lat places) of Inl e \<Rightarrow> Inl e | Inr lo_lat \<Rightarrow>
      case py_max (map lat places) of Inl e \<Rightarrow> Inl e | Inr hi_lat \<Rightarrow>
      case py_min (map lng places) of Inl e \<Rightarrow> Inl e | Inr lo_lng \<Rightarrow>
      case py_max (map lng places) of Inl e \<Rightarrow> Inl e | Inr hi_lng \<Rightarrow>
      case axis_step lo_lat hi_lat g of Inl e \<Rightarrow> Inl e | Inr st_lat \<Rightarrow>
      case axis_step lo_lng hi_lng g of Inl e \<Rightarrow> Inl e | Inr st_lng \<Rightarrow>
        Inr \<lparr>min_lat = lo_lat, min_lng = lo_lng, lat_step = st_lat, lng_step = st_lng\<rparr>)"

text \<open>Line 236: \<open>lat_bin, lng_bin = map(int, grid_key.split(','))\<close>. The unpacking
  raises \<open>ValueError\<close> unless there are exactly two parts, as \<open>int\<close> does on a part that
  is not a number.\<close>

definition parse_key :: "string \<Rightarrow> exn + (int \<times> int)" where
  "parse_key k =
     (case split_on CHR '','' k of
        [a, b] \<Rightarrow>
          (case int_of_str a of
             None \<Rightarrow> Inl ValueError
           | Some r \<Rightarrow>
               (case int_of_str b of
                  None \<Rightarrow> Inl ValueError
                | Some c \<Rightarrow> Inr (r, c)))
      | _ \<Rightarrow> Inl ValueError)"

text \<open>Lines 235 to 248: the loop over the top cells; \<open>n\<close> numbers the requests. In
  \<open>lat_bin + 0.5\<close> and \<open>lng_bin + 0.5\<close> the integer is converted to a float.\<close>

fun hotspot_details :: "geo \<Rightarrow> grid \<Rightarrow> nat \<Rightarrow> (string \<times> int) list \<Rightarrow> exn + hotspot list" where
  "hotspot_details geo gr n [] = Inr []"
| "hotspot_details geo gr n ((k, c) # rest) =
     (case parse_key k of
        Inl e \<Rightarrow> Inl e
      | Inr (row, col) \<Rightarrow>
          (case float_of_int row of
             Inl e \<Rightarrow> Inl e
           | Inr frow \<Rightarrow>
               (case float_of_int col of
                  Inl e \<Rightarrow> Inl e
                | Inr fcol \<Rightarrow>
                    (let clat = min_lat gr + (frow + 1 / 2) * lat_step gr;
                         clng = min_lng gr + (fcol + 1 / 2) * lng_step gr;
                         location_name = reverse_geocode (geo n clat clng)
                     in case hotspot_details geo gr (Suc n) rest of
                          Inl e \<Rightarrow> Inl e
                        | Inr hs \<Rightarrow>
                            Inr (\<lparr>grid_cell = k, count = c, center_lat = clat,
                                  center_lng = clng,
                                  approximate_location = location_name\<rparr> # hs)))))"

text \<open>Lines 216 to 231: the cells with their counts, in the order of \<open>sorted\<close>.\<close>

definition cell_counts :: "grid \<Rightarrow> int \<Rightarrow> place list \<Rightarrow> (string \<times> int) list" where
  "cell_counts gr g places = count_places gr g places []"

definition ranked_cells :: "grid \<Rightarrow> int \<Rightarrow> place list \<Rightarrow> (string \<times> int) list" where
  "ranked_cells gr g places = sorted_reverse snd (cell_counts gr g places)"

text \<open>The body of the \<open>try\<close> block, lines 205 to 254.\<close>

definition density :: "geo \<Rightarrow> place list \<Rightarrow> int \<Rightarrow> exn + report" where
  "density geo places g =
     (case make_grid places g of
        Inl e \<Rightarrow> Inl e
      | Inr gr \<Rightarrow>
          (case hotspot_details geo gr 0 (take 3 (ranked_cells gr g places)) of
             Inl e \<Rightarrow> Inl e
           | Inr hotspot_list \<Rightarrow>
               Inr \<lparr>total_places = int (length places), grid_size = g,
                    hotspots = hotspot_list\<rparr>))"

definition analyze_density :: "geo \<Rightarrow> pyobj \<Rightarrow> int \<Rightarrow> error + report" where
  "analyze_density geo places g =
     (case places of
        PyList ps \<Rightarrow>
          if ps = [] then Inl NoPlaces
          else (case density geo ps g of
                  Inl e \<Rightarrow> Inl (Caught e)
                | Inr r \<Rightarrow> Inr r)
      | _ \<Rightarrow> Inl NoPlaces)"

subsection \<open>Notions used to state the properties\<close>

text \<open>The position of the first occurrence of \<open>k\<close> in a list (its length when there is
  none): applied to the keys of the scanned places, the moment a cell is created.\<close>

fun first_index :: "'a \<Rightarrow> 'a list \<Rightarrow> nat" where
  "first_index k [] = 0"
| "first_index k (x # xs) = (if x = k then 0 else Suc (first_index k xs))"

subsection \<open>Concrete inputs\<close>

text \<open>A network on which every request raises, and a place with given coordinates.\<close>

definition offline :: geo where
  "offline n la lo = RequestRaised"

definition place_at :: "rat \<Rightarrow> rat \<Rightarrow> place" where
  "place_at la lo = \<lparr>name = ''place'', lat = la, lng = lo, rating = None, address = ''address''\<rparr>"

text \<open>The three points of the first scenario of the specification.\<close>

definition scenario1 :: "place list" where
  "scenario1 = [place_at 37 (- 122), place_at 37 (- 122), place_at (371 / 10) (- (1221 / 10))]"

text \<open>Five points on a diagonal that occupy four cells of a grid of size 4.\<close>

definition diagonal :: "place list" where
  "diagonal = [place_at 0 0, place_at 1 1, place_at 1 1, place_at 2 2, place_at 3 3]"

text \<open>A network whose first request raises and whose later requests are answered.\<close>

definition flaky :: geo where
  "flaky n la lo = (if n = 0 then RequestRaised else GeoData (Some ''OK'') [Some ''Market Street''])"

section \<open>Properties\<close>

subsection \<open>Writing and reading integers\<close>

lemma of_char_digit_char: "d < 10 \<Longrightarrow> (of_char (digit_char d) :: nat) = 48 + d"
  by (simp add: digit_char_def)

lemma is_digit_digit_char: "d < 10 \<Longrightarrow> is_digit (digit_char d)"
  by (simp add: is_digit_def of_char_digit_char)

lemma digit_val_digit_char: "d < 10 \<Longrightarrow> digit_val (digit_char d) = d"
  by (simp add: digit_val_def of_char_digit_char)

lemma is_digit_not_sep: "is_digit c \<Longrightarrow> c \<noteq> CHR '','' \<and> c \<noteq> CHR ''-'' \<and> c \<noteq> CHR ''+''"
  by (auto simp: is_digit_def)

lemma str_nat_digits: "list_all is_digit (str_nat n)"
proof (induction n rule: str_nat.induct)
  case (1 n)
  show ?case
  proof (cases "n < 10")
    case True
    then show ?thesis by (simp add: str_nat.simps [of n] is_digit_digit_char)
  next
    case False
    with 1 show ?thesis by (simp add: str_nat.simps [of n] is_digit_digit_char)
  qed
qed

lemma str_nat_nonempty: "str_nat n \<noteq> []"
  by (simp add: str_nat.simps [of n])

lemma str_nat_value: "foldl (\<lambda>a c. 10 * a + digit_val c) 0 (str_nat n) = n"
proof (induction n rule: str_nat.induct)
  case (1 n)
  show ?case
  proof (cases "n < 10")
    case True
    then show ?thesis by (simp add: str_nat.simps [of n] digit_val_digit_char)
  next
    case False
    with 1 show ?thesis by (simp add: str_nat.simps [of n] digit_val_digit_char)
  qed
qed

lemma nat_of_str_str_nat: "nat_of_str (str_nat n) = Some n"
  by (simp add: nat_of_str_def str_nat_nonempty str_nat_digits str_nat_value)

lemma int_of_str_str_int: "int_of_str (str_int i) = Some i"
proof (cases "i < 0")
  case True
  then show ?thesis
    by (simp add: int_of_str_def str_int_def nat_of_str_str_nat)
next
  case False
  obtain c ds where s: "str_nat (nat i) = c # ds"
    using str_nat_nonempty [of "nat i"] by (cases "str_nat (nat i)") auto
  have "is_digit c"
    using str_nat_digits [of "nat i"] by (simp add: s)
  then have "c \<noteq> CHR ''-''" "c \<noteq> CHR ''+''"
    using is_digit_not_sep by blast+
  moreover have "nat_of_str (c # ds) = Some (nat i)"
    using nat_of_str_str_nat [of "nat i"] by (simp add: s)
  ultimately show ?thesis
    using False by (simp add: int_of_str_def str_int_def s)
qed

lemma comma_notin_str_int: "CHR '','' \<notin> set (str_int i)"
proof -
  have "\<forall>c \<in> set (str_nat n). c \<noteq> CHR '',''" for n
    using str_nat_digits [of n] is_digit_not_sep by (auto simp: list_all_iff)
  then show ?thesis by (auto simp: str_int_def)
qed

lemma split_on_no_sep: "c \<notin> set xs \<Longrightarrow> split_on c xs = [xs]"
  by (induction xs) auto

lemma split_on_first: "c \<notin> set xs \<Longrightarrow> split_on c (xs @ c # ys) = xs # split_on c ys"
  by (induction xs) auto

lemma parse_key_format: "parse_key (str_int a @ CHR '','' # str_int b) = Inr (a, b)"
proof -
  have "split_on CHR '','' (str_int a @ CHR '','' # str_int b) = [str_int a, str_int b]"
    by (simp add: split_on_first split_on_no_sep comma_notin_str_int)
  then show ?thesis
    by (simp add: parse_key_def int_of_str_str_int)
qed

lemma parse_key_grid_key: "parse_key (grid_key gr g p) = Inr (lat_bin gr g p, lng_bin gr g p)"
  by (simp add: grid_key_def parse_key_format)

subsection \<open>The dictionary of counts\<close>

lemma keys_dict_set:
  "map fst (dict_set kvs k v) = (if k \<in> fst ` set kvs then map fst kvs else map fst kvs @ [k])"
  by (induction kvs) force+

lemma set_keys_dict_set: "fst ` set (dict_set kvs k v) = insert k (fst ` set kvs)"
proof -
  have "set (map fst (dict_set kvs k v)) = insert k (set (map fst kvs))"
    unfolding keys_dict_set by auto
  then show ?thesis by simp
qed

lemma dict_get_dict_set: "dict_get (dict_set kvs k v) k' d = (if k' = k then v else dict_get kvs k' d)"
  by (induction kvs) auto

lemma sum_dict_set:
  "sum_list (map snd (dict_set kvs k v)) = sum_list (map snd kvs) - dict_get kvs k 0 + (v::int)"
  by (induction kvs) auto

lemma dict_get_in_set:
  "distinct (map fst kvs) \<Longrightarrow> (k, v) \<in> set kvs \<Longrightarrow> dict_get kvs k d = v"
  by (induction kvs) (auto simp: rev_image_eqI)

lemma keys_count_places:
  "set (map fst (count_places gr g ps gc)) = set (map fst gc) \<union> grid_key gr g ` set ps"
  by (induction ps arbitrary: gc) (auto simp: set_keys_dict_set)

lemma distinct_count_places:
  "distinct (map fst gc) \<Longrightarrow> distinct (map fst (count_places gr g ps gc))"
  by (induction ps arbitrary: gc) (auto simp: keys_dict_set)

lemma sum_count_places:
  "sum_list (map snd (count_places gr g ps gc)) = sum_list (map snd gc) + int (length ps)"
  by (induction ps arbitrary: gc) (auto simp: sum_dict_set)

lemma dict_get_count_places:
  "dict_get (count_places gr g ps gc) k 0 =
     dict_get gc k 0 + int (length (filter (\<lambda>p. grid_key gr g p = k) ps))"
  by (induction ps arbitrary: gc) (auto simp: dict_get_dict_set)

lemma first_index_append:
  "first_index a (xs @ ys) = (if a \<in> set xs then first_index a xs else length xs + first_index a ys)"
  by (induction xs) auto

lemma first_index_less: "a \<in> set xs \<Longrightarrow> first_index a xs < length xs"
  by (induction xs) auto

lemma first_index_nth: "distinct xs \<Longrightarrow> i < length xs \<Longrightarrow> first_index (xs ! i) xs = i"
proof (induction xs arbitrary: i)
  case Nil
  then show ?case by simp
next
  case (Cons x xs)
  then show ?case by (cases i) auto
qed

lemma distinct_sorted_first_index:
  "distinct xs \<Longrightarrow> sorted_wrt (\<lambda>a b. first_index a xs < first_index b xs) xs"
  by (simp add: sorted_wrt_iff_nth_less first_index_nth)

lemma first_index_skip_known:
  assumes "k \<in> set K"
  shows "(first_index a (K @ k # rest) < first_index b (K @ k # rest))
       = (first_index a (K @ rest) < first_index b (K @ rest))"
  using assms first_index_less [of a K] first_index_less [of b K]
  by (auto simp: first_index_append)

lemma order_count_places:
  "distinct (map fst gc) \<Longrightarrow>
   sorted_wrt (\<lambda>a b. first_index a (map fst gc @ map (grid_key gr g) ps)
                    < first_index b (map fst gc @ map (grid_key gr g) ps))
     (map fst (count_places gr g ps gc))"
proof (induction ps arbitrary: gc)
  case Nil
  then show ?case by (simp add: distinct_sorted_first_index)
next
  case (Cons p ps)
  let ?k = "grid_key gr g p"
  let ?gc = "dict_set gc ?k (dict_get gc ?k 0 + 1)"
  have d: "distinct (map fst ?gc)"
    using Cons.prems by (auto simp: keys_dict_set)
  note ih = Cons.IH [OF d]
  show ?case
  proof (cases "?k \<in> fst ` set gc")
    case True
    then have k: "map fst ?gc = map fst gc" by (simp add: keys_dict_set)
    from True have "?k \<in> set (map fst gc)" by simp
    from first_index_skip_known [OF this] ih show ?thesis
      by (simp add: k)
  next
    case False
    then have k: "map fst ?gc = map fst gc @ [?k]" by (simp add: keys_dict_set)
    from ih show ?thesis by (simp add: k)
  qed
qed

subsection \<open>Sorting and ranking\<close>

lemma insort_key_tie_order:
  assumes "sorted_wrt (\<lambda>a b. f a < f b \<or> (f a = f b \<and> R a b)) ys"
    and "\<forall>y \<in> set ys. R x y"
  shows "sorted_wrt (\<lambda>a b. f a < f b \<or> (f a = f b \<and> R a b)) (insort_key f x ys)"
  using assms
proof (induction ys)
  case Nil
  then show ?case by simp
next
  case (Cons y ys)
  show ?case
  proof (cases "f x \<le> f y")
    case True
    have "f y \<le> f z" if "z \<in> set ys" for z
      using Cons.prems(1) that by auto
    with True Cons.prems show ?thesis
      by (auto simp: le_less)
  next
    case False
    with Cons show ?thesis
      by (auto simp: set_insort_key)
  qed
qed

lemma sort_key_tie_order:
  "sorted_wrt R xs \<Longrightarrow>
   sorted_wrt (\<lambda>a b. f a < f b \<or> (f a = f b \<and> R a b)) (sort_key f xs)"
proof (induction xs)
  case Nil
  then show ?case by simp
next
  case (Cons x xs)
  then show ?case
    using insort_key_tie_order [of f R "sort_key f xs" x] by simp
qed

lemma sorted_reverse_tie_order:
  assumes "sorted_wrt R xs"
  shows "sorted_wrt (\<lambda>a b. key a > key b \<or> (key a = key b \<and> R a b)) (sorted_reverse key xs)"
  using sort_key_tie_order [OF assms, of "\<lambda>x. - key x"]
  by (simp add: sorted_reverse_def)

lemma set_sorted_reverse: "set (sorted_reverse key xs) = set xs"
  by (simp add: sorted_reverse_def)

lemma length_sorted_reverse: "length (sorted_reverse key xs) = length xs"
  by (simp add: sorted_reverse_def)

lemma distinct_keys_sorted_reverse:
  "distinct (map fst xs) \<Longrightarrow> distinct (map fst (sorted_reverse key xs))"
  by (metis sorted_reverse_def distinct_map distinct_sort set_sort)

lemma keys_cell_counts: "fst ` set (cell_counts gr g places) = grid_key gr g ` set places"
  using keys_count_places [of gr g places "[]"] by (simp add: cell_counts_def)

lemma distinct_cell_counts: "distinct (map fst (cell_counts gr g places))"
  by (simp add: cell_counts_def distinct_count_places)

lemma sum_cell_counts: "sum_list (map snd (cell_counts gr g places)) = int (length places)"
  by (simp add: cell_counts_def sum_count_places)

lemma count_of_cell:
  "(k, c) \<in> set (cell_counts gr g places) \<Longrightarrow>
   c = int (length (filter (\<lambda>p. grid_key gr g p = k) places))"
  using dict_get_count_places [of gr g places "[]" k]
    dict_get_in_set [OF distinct_cell_counts, of k c gr g places 0]
  by (simp add: cell_counts_def)

lemma ranked_cells_order:
  "sorted_wrt
     (\<lambda>a b. snd a > snd b \<or>
        (snd a = snd b \<and>
         first_index (fst a) (map (grid_key gr g) places)
           < first_index (fst b) (map (grid_key gr g) places)))
     (ranked_cells gr g places)"
proof -
  have "sorted_wrt
     (\<lambda>a b. first_index a (map (grid_key gr g) places)
           < first_index b (map (grid_key gr g) places))
     (map fst (cell_counts gr g places))"
    using order_count_places [of "[]" gr g places] by (simp add: cell_counts_def)
  then have "sorted_wrt
     (\<lambda>a b. first_index (fst a) (map (grid_key gr g) places)
           < first_index (fst b) (map (grid_key gr g) places))
     (cell_counts gr g places)"
    by (simp add: sorted_wrt_map)
  from sorted_reverse_tie_order [OF this, of snd] show ?thesis
    by (simp add: ranked_cells_def)
qed

subsection \<open>Conversions and the hotspot loop\<close>

lemma float_limit_positive: "1 < float_limit"
  by (simp add: float_limit_def)

lemma in_float_range: "\<bar>g\<bar> \<le> 2 ^ 1000 \<Longrightarrow> \<bar>g\<bar> + 1 < float_limit"
  by (simp add: float_limit_def)

lemma float_of_int_in_range: "\<bar>i\<bar> < float_limit \<Longrightarrow> float_of_int i = Inr (of_int i)"
  by (simp add: float_of_int_def)

lemma float_of_int_Inr: "float_of_int i = Inr d \<Longrightarrow> d = of_int i \<and> \<bar>i\<bar> < float_limit"
  by (simp add: float_of_int_def split: if_splits)

lemma truediv_zero: "truediv a 0 = Inl ZeroDivisionError"
  using float_limit_positive by (simp add: truediv_def float_of_int_def)

lemma truediv_in_range:
  "b \<noteq> 0 \<Longrightarrow> \<bar>b\<bar> < float_limit \<Longrightarrow> truediv a b = Inr (a / of_int b)"
  by (simp add: truediv_def float_of_int_in_range)

lemma truediv_Inr: "truediv a b = Inr q \<Longrightarrow> b \<noteq> 0 \<and> \<bar>b\<bar> < float_limit \<and> q = a / of_int b"
  by (auto simp: truediv_def float_of_int_def split: if_splits)

lemma hotspot_details_succeeds:
  "\<forall>kc \<in> set cells. \<exists>row col. parse_key (fst kc) = Inr (row, col) \<and>
      \<bar>row\<bar> < float_limit \<and> \<bar>col\<bar> < float_limit \<Longrightarrow>
   \<exists>hs. hotspot_details geo gr n cells = Inr hs"
proof (induction cells arbitrary: n)
  case Nil
  then show ?case by simp
next
  case (Cons kc cells)
  obtain k c where kc: "kc = (k, c)" by (cases kc)
  from Cons.prems obtain row col where p: "parse_key k = Inr (row, col)"
    "\<bar>row\<bar> < float_limit" "\<bar>col\<bar> < float_limit"
    by (auto simp: kc)
  from Cons.IH [of "Suc n"] Cons.prems obtain hs where
    "hotspot_details geo gr (Suc n) cells = Inr hs" by auto
  then show ?case by (simp add: kc p float_of_int_in_range Let_def)
qed

lemma hotspot_details_cells:
  "hotspot_details geo gr n cells = Inr hs \<Longrightarrow>
   map (\<lambda>h. (grid_cell h, count h)) hs = cells"
proof (induction cells arbitrary: n hs)
  case Nil
  then show ?case by simp
next
  case (Cons kc cells)
  obtain k c where kc: "kc = (k, c)" by (cases kc)
  from Cons.prems Cons.IH [of "Suc n"] show ?case
    by (auto simp: kc Let_def split: sum.splits)
qed

lemma hotspot_details_length:
  "hotspot_details geo gr n cells = Inr hs \<Longrightarrow> length hs = length cells"
  using hotspot_details_cells [of geo gr n cells hs]
  by (metis length_map)

lemma hotspot_details_nth:
  "hotspot_details geo gr n cells = Inr hs \<Longrightarrow> i < length hs \<Longrightarrow>
   \<exists>row col.
     parse_key (grid_cell (hs ! i)) = Inr (row, col) \<and>
     \<bar>row\<bar> < float_limit \<and> \<bar>col\<bar> < float_limit \<and>
     center_lat (hs ! i) = min_lat gr + (of_int row + 1 / 2) * lat_step gr \<and>
     center_lng (hs ! i) = min_lng gr + (of_int col + 1 / 2) * lng_step gr \<and>
     approximate_location (hs ! i) =
       reverse_geocode (geo (n + i) (center_lat (hs ! i)) (center_lng (hs ! i)))"
proof (induction cells arbitrary: n hs i)
  case Nil
  then show ?case by simp
next
  case (Cons kc cells)
  obtain k c where kc: "kc = (k, c)" by (cases kc)
  from Cons.prems(1) obtain row col frow fcol hs' where
    p: "parse_key k = Inr (row, col)" and
    fr: "float_of_int row = Inr frow" and fc: "float_of_int col = Inr fcol" and
    r: "hotspot_details geo gr (Suc n) cells = Inr hs'" and
    hs: "hs = \<lparr>grid_cell = k, count = c,
               center_lat = min_lat gr + (frow + 1 / 2) * lat_step gr,
               center_lng = min_lng gr + (fcol + 1 / 2) * lng_step gr,
               approximate_location =
                 reverse_geocode (geo n (min_lat gr + (frow + 1 / 2) * lat_step gr)
                                        (min_lng gr + (fcol + 1 / 2) * lng_step gr))\<rparr> # hs'"
    by (auto simp: kc Let_def split: sum.splits)
  show ?case
  proof (cases i)
    case 0
    then show ?thesis
      using float_of_int_Inr [OF fr] float_of_int_Inr [OF fc] by (simp add: hs p)
  next
    case (Suc j)
    with Cons.prems(2) have "j < length hs'" by (simp add: hs)
    from Cons.IH [OF r this] show ?thesis by (simp add: hs Suc)
  qed
qed

subsection \<open>The grid\<close>

lemma fold_min_Min: "fold min xs (x::rat) = Min (set (x # xs))"
  by (simp only: Min.set_eq_fold)

lemma fold_max_Max: "fold max xs (x::rat) = Max (set (x # xs))"
  by (simp only: Max.set_eq_fold)

lemma py_min_nonempty: "xs \<noteq> [] \<Longrightarrow> py_min xs = Inr (Min (set xs))"
  by (cases xs) (simp_all only: py_min.simps fold_min_Min, simp)

lemma py_max_nonempty: "xs \<noteq> [] \<Longrightarrow> py_max xs = Inr (Max (set xs))"
  by (cases xs) (simp_all only: py_max.simps fold_max_Max, simp)

lemma make_grid_steps:
  assumes "places \<noteq> []"
  shows "make_grid places g =
     (case axis_step (Min (lat ` set places)) (Max (lat ` set places)) g of
        Inl e \<Rightarrow> Inl e
      | Inr st_lat \<Rightarrow>
          (case axis_step (Min (lng ` set places)) (Max (lng ` set places)) g of
             Inl e \<Rightarrow> Inl e
           | Inr st_lng \<Rightarrow>
               Inr \<lparr>min_lat = Min (lat ` set places), min_lng = Min (lng ` set places),
                    lat_step = st_lat, lng_step = st_lng\<rparr>))"
  using assms by (simp add: make_grid_def py_min_nonempty py_max_nonempty)

lemma make_grid_Inr:
  assumes "places \<noteq> []" and "make_grid places g = Inr gr"
  shows "min_lat gr = Min (lat ` set places)" and "min_lng gr = Min (lng ` set places)"
    and "axis_step (Min (lat ` set places)) (Max (lat ` set places)) g = Inr (lat_step gr)"
    and "axis_step (Min (lng ` set places)) (Max (lng ` set places)) g = Inr (lng_step gr)"
  using assms(2) unfolding make_grid_steps [OF assms(1)]
  by (auto split: sum.splits)

lemma make_grid_Inl:
  assumes "places \<noteq> []" and "make_grid places g = Inl e"
  shows "axis_step (Min (lat ` set places)) (Max (lat ` set places)) g = Inl e \<or>
         axis_step (Min (lng ` set places)) (Max (lng ` set places)) g = Inl e"
  using assms(2) unfolding make_grid_steps [OF assms(1)]
  by (auto split: sum.splits)

lemma axis_step_degenerate: "axis_step lo lo g = Inr (1 / 100)"
  by (simp add: axis_step_def)

lemma axis_step_in_range:
  "g \<noteq> 0 \<Longrightarrow> \<bar>g\<bar> < float_limit \<Longrightarrow>
   axis_step lo hi g = Inr (if hi \<noteq> lo then (hi - lo) / of_int g else 1 / 100)"
  by (simp add: axis_step_def truediv_in_range)

lemma axis_step_Inr:
  "axis_step lo hi g = Inr s \<Longrightarrow>
   (hi = lo \<and> s = 1 / 100) \<or> (hi \<noteq> lo \<and> g \<noteq> 0 \<and> \<bar>g\<bar> < float_limit \<and> s = (hi - lo) / of_int g)"
  by (auto simp: axis_step_def dest: truediv_Inr split: if_splits)

lemma axis_step_Inl:
  "axis_step lo hi g = Inl e \<Longrightarrow>
   hi \<noteq> lo \<and> ((g = 0 \<and> e = ZeroDivisionError) \<or> (float_limit \<le> \<bar>g\<bar> \<and> e = OverflowError))"
  by (auto simp: axis_step_def truediv_def float_of_int_def split: if_splits)

lemma make_grid_in_range:
  assumes "places \<noteq> []" and "g \<noteq> 0" and "\<bar>g\<bar> < float_limit"
  shows "make_grid places g =
     Inr \<lparr>min_lat = Min (lat ` set places), min_lng = Min (lng ` set places),
          lat_step = (if Max (lat ` set places) \<noteq> Min (lat ` set places)
                      then (Max (lat ` set places) - Min (lat ` set places)) / of_int g
                      else 1 / 100),
          lng_step = (if Max (lng ` set places) \<noteq> Min (lng ` set places)
                      then (Max (lng ` set places) - Min (lng ` set places)) / of_int g
                      else 1 / 100)\<rparr>"
  using assms by (simp add: make_grid_steps axis_step_in_range)

lemma Min_le_Max_image:
  "places \<noteq> [] \<Longrightarrow> Min ((f :: place \<Rightarrow> rat) ` set places) \<le> Max (f ` set places)"
  by (meson Max_ge Min_in finite_imageI finite_set image_is_empty set_empty)

lemma axis_step_positive:
  assumes "axis_step lo hi g = Inr s" and "lo \<le> hi" and "1 \<le> g"
  shows "0 < s"
  using axis_step_Inr [OF assms(1)] assms(2,3) by auto

lemma make_grid_steps_positive:
  assumes "places \<noteq> []" and "make_grid places g = Inr gr" and "1 \<le> g"
  shows "0 < lat_step gr" and "0 < lng_step gr"
  using make_grid_Inr(3,4) [OF assms(1,2)] Min_le_Max_image [OF assms(1)] assms(3)
  by (blast intro: axis_step_positive)+

lemma raw_bin_nonneg: "lo \<le> v \<Longrightarrow> 0 < step \<Longrightarrow> 0 \<le> raw_bin v lo step"
  by (simp add: raw_bin_def int_of_float_def)

lemma clamp_bin_range: "0 \<le> b \<Longrightarrow> 1 \<le> g \<Longrightarrow> 0 \<le> clamp_bin b g \<and> clamp_bin b g < g"
  by (simp add: clamp_bin_def)

lemma bins_in_range:
  assumes "make_grid places g = Inr gr" and "1 \<le> g" and "p \<in> set places"
  shows "0 \<le> lat_bin gr g p \<and> lat_bin gr g p < g \<and> 0 \<le> lng_bin gr g p \<and> lng_bin gr g p < g"
proof -
  from assms(3) have ne: "places \<noteq> []" by auto
  have "min_lat gr \<le> lat p" "min_lng gr \<le> lng p"
    using assms(3) by (simp_all add: make_grid_Inr(1,2) [OF ne assms(1)])
  then have "0 \<le> raw_bin (lat p) (min_lat gr) (lat_step gr)"
    "0 \<le> raw_bin (lng p) (min_lng gr) (lng_step gr)"
    using make_grid_steps_positive [OF ne assms(1,2)] by (simp_all add: raw_bin_nonneg)
  then show ?thesis
    using clamp_bin_range [OF _ assms(2)] by (simp add: lat_bin_def lng_bin_def)
qed

lemma ranked_cells_key:
  "kc \<in> set (ranked_cells gr g places) \<Longrightarrow> \<exists>p \<in> set places. fst kc = grid_key gr g p"
proof -
  assume "kc \<in> set (ranked_cells gr g places)"
  then have "fst kc \<in> fst ` set (cell_counts gr g places)"
    by (simp add: ranked_cells_def set_sorted_reverse)
  then show ?thesis
    by (auto simp: keys_cell_counts)
qed

lemma analyze_density_Inr:
  assumes "analyze_density geo (PyList places) g = Inr r"
  shows "places \<noteq> []"
    and "\<exists>gr hs. make_grid places g = Inr gr \<and>
           hotspot_details geo gr 0 (take 3 (ranked_cells gr g places)) = Inr hs \<and>
           r = \<lparr>total_places = int (length places), grid_size = g, hotspots = hs\<rparr>"
  using assms
  by (auto simp: analyze_density_def density_def split: if_splits sum.splits)

lemma analyze_density_report:
  assumes "places \<noteq> []" and "make_grid places g = Inr gr"
    and "hotspot_details geo gr 0 (take 3 (ranked_cells gr g places)) = Inr hs"
  shows "analyze_density geo (PyList places) g =
     Inr \<lparr>total_places = int (length places), grid_size = g, hotspots = hs\<rparr>"
  using assms by (simp add: analyze_density_def density_def)

lemma analyze_density_grid_error:
  assumes "places \<noteq> []" and "make_grid places g = Inl e"
  shows "analyze_density geo (PyList places) g = Inl (Caught e)"
  using assms by (simp add: analyze_density_def density_def)

lemma hotspots_in_range:
  assumes "make_grid places g = Inr gr"
    and "\<forall>p \<in> set places. \<bar>lat_bin gr g p\<bar> < float_limit \<and> \<bar>lng_bin gr g p\<bar> < float_limit"
  shows "\<exists>hs. hotspot_details geo gr 0 (take 3 (ranked_cells gr g places)) = Inr hs"
proof (rule hotspot_details_succeeds, rule ballI)
  fix kc assume "kc \<in> set (take 3 (ranked_cells gr g places))"
  then have "kc \<in> set (ranked_cells gr g places)" by (rule in_set_takeD)
  from ranked_cells_key [OF this] obtain p where p: "p \<in> set places" "fst kc = grid_key gr g p"
    by blast
  with assms(2) show "\<exists>row col. parse_key (fst kc) = Inr (row, col) \<and>
      \<bar>row\<bar> < float_limit \<and> \<bar>col\<bar> < float_limit"
    by (simp add: parse_key_grid_key)
qed

subsection \<open>Degenerate axes and the existence of the report\<close>

lemma Max_eq_Min_iff:
  fixes A :: "rat set"
  assumes "finite A" and "A \<noteq> {}"
  shows "Max A = Min A \<longleftrightarrow> (\<forall>a \<in> A. \<forall>b \<in> A. a = b)"
proof
  assume e: "Max A = Min A"
  show "\<forall>a \<in> A. \<forall>b \<in> A. a = b"
  proof (intro ballI)
    fix a b assume "a \<in> A" "b \<in> A"
    then have "Min A \<le> a" "a \<le> Max A" "Min A \<le> b" "b \<le> Max A"
      using assms(1) by simp_all
    with e show "a = b" by simp
  qed
next
  assume "\<forall>a \<in> A. \<forall>b \<in> A. a = b"
  then show "Max A = Min A"
    using assms by (meson Max_in Min_in)
qed

lemma degenerate_axis:
  assumes "places \<noteq> []"
  shows "Max (f ` set places) = Min (f ` set places) \<longleftrightarrow>
     (\<forall>p \<in> set places. \<forall>q \<in> set places. (f p :: rat) = f q)"
  using assms Max_eq_Min_iff [of "f ` set places"] by auto

lemma degenerate_axis_Min:
  assumes "Max (f ` set places) = Min (f ` set places)" and "p \<in> set places"
  shows "(f p :: rat) = Min (f ` set places)"
proof -
  have "Min (f ` set places) \<le> f p" "f p \<le> Max (f ` set places)"
    using assms(2) by simp_all
  with assms(1) show ?thesis by simp
qed

lemma raw_bin_at_min: "raw_bin v v s = 0"
  by (simp add: raw_bin_def int_of_float_def)

lemma report_exists:
  assumes "places \<noteq> []" and "1 \<le> g" and "g < float_limit"
  shows "\<exists>gr hs. make_grid places g = Inr gr \<and>
     hotspot_details geo gr 0 (take 3 (ranked_cells gr g places)) = Inr hs \<and>
     analyze_density geo (PyList places) g =
       Inr \<lparr>total_places = int (length places), grid_size = g, hotspots = hs\<rparr>"
proof -
  have "g \<noteq> 0" "\<bar>g\<bar> < float_limit" using assms(2,3) by simp_all
  from make_grid_in_range [OF assms(1) this] obtain gr where gr: "make_grid places g = Inr gr"
    by blast
  have "\<forall>p \<in> set places. \<bar>lat_bin gr g p\<bar> < float_limit \<and> \<bar>lng_bin gr g p\<bar> < float_limit"
    using bins_in_range [OF gr assms(2)] assms(3) by force
  from hotspots_in_range [OF gr this, of geo] obtain hs where
    hs: "hotspot_details geo gr 0 (take 3 (ranked_cells gr g places)) = Inr hs" by blast
  from gr hs analyze_density_report [OF assms(1) gr hs] show ?thesis by blast
qed

lemma cell_of_place_unique:
  assumes "p \<in> set places"
  shows "\<exists>!kc. kc \<in> set (cell_counts gr g places) \<and> fst kc = grid_key gr g p"
proof -
  from assms have "grid_key gr g p \<in> fst ` set (cell_counts gr g places)"
    by (simp add: keys_cell_counts)
  then obtain kc where kc: "kc \<in> set (cell_counts gr g places)" "fst kc = grid_key gr g p"
    by auto
  moreover have "kc' = kc"
    if "kc' \<in> set (cell_counts gr g places)" "fst kc' = grid_key gr g p" for kc'
    using that kc distinct_cell_counts [of gr g places]
    by (metis eq_key_imp_eq_value prod.collapse)
  ultimately show ?thesis by blast
qed

section \<open>The claims\<close>

text \<open>
  Claim C1. For a non-empty list of places and a grid size \<open>g \<ge> 1\<close>: a report is
  returned whenever \<open>g\<close> is at most \<open>2^1000\<close>, and every report that is
  returned has the number of places as \<open>total_places\<close>; the counts of all cells of
  \<open>grid_counts\<close> add up to it; the key of every place is the key of exactly one cell;
  and the count of a cell is the number of places with its key.
\<close>

theorem counts_cover_all_places:
  assumes "places \<noteq> []" and "1 \<le> g"
  shows "(g \<le> 2 ^ 1000 \<longrightarrow> (\<exists>r. analyze_density geo (PyList places) g = Inr r)) \<and>
     (\<forall>r. analyze_density geo (PyList places) g = Inr r \<longrightarrow>
        total_places r = int (length places) \<and>
        (\<exists>gr. make_grid places g = Inr gr \<and>
           sum_list (map snd (cell_counts gr g places)) = total_places r \<and>
           (\<forall>p \<in> set places.
              \<exists>!kc. kc \<in> set (cell_counts gr g places) \<and> fst kc = grid_key gr g p) \<and>
           (\<forall>kc \<in> set (cell_counts gr g places).
              snd kc = int (length (filter (\<lambda>p. grid_key gr g p = fst kc) places)))))"
proof (intro conjI allI impI)
  assume "g \<le> 2 ^ 1000"
  with assms(2) in_float_range [of g] have "g < float_limit" by simp
  from report_exists [OF assms this, of geo]
  show "\<exists>r. analyze_density geo (PyList places) g = Inr r" by blast
next
  fix r assume r: "analyze_density geo (PyList places) g = Inr r"
  from analyze_density_Inr(2) [OF r] obtain gr hs where
    gr: "make_grid places g = Inr gr" and
    rep: "r = \<lparr>total_places = int (length places), grid_size = g, hotspots = hs\<rparr>"
    by blast
  show "total_places r = int (length places)" by (simp add: rep)
  have cnt: "snd kc = int (length (filter (\<lambda>p. grid_key gr g p = fst kc) places))"
    if "kc \<in> set (cell_counts gr g places)" for kc
    using count_of_cell [of "fst kc" "snd kc" gr g places] that by simp
  show "\<exists>gr. make_grid places g = Inr gr \<and>
           sum_list (map snd (cell_counts gr g places)) = total_places r \<and>
           (\<forall>p \<in> set places.
              \<exists>!kc. kc \<in> set (cell_counts gr g places) \<and> fst kc = grid_key gr g p) \<and>
           (\<forall>kc \<in> set (cell_counts gr g places).
              snd kc = int (length (filter (\<lambda>p. grid_key gr g p = fst kc) places)))"
    using gr cnt
    by (intro exI [of _ gr] conjI ballI) (simp_all add: rep sum_cell_counts cell_of_place_unique)
qed

theorem counts_cover_all_places_witness:
  "scenario1 \<noteq> [] \<and> (1::int) \<le> 5 \<and> (5::int) \<le> 2 ^ 1000 \<and>
   (\<exists>r. analyze_density offline (PyList scenario1) 5 = Inr r \<and>
      total_places r = int (length scenario1) \<and>
      (\<exists>gr. make_grid scenario1 5 = Inr gr \<and>
         sum_list (map snd (cell_counts gr 5 scenario1)) = total_places r \<and>
         (\<forall>p \<in> set scenario1.
            \<exists>!kc. kc \<in> set (cell_counts gr 5 scenario1) \<and> fst kc = grid_key gr 5 p) \<and>
         (\<forall>kc \<in> set (cell_counts gr 5 scenario1).
            snd kc = int (length (filter (\<lambda>p. grid_key gr 5 p = fst kc) scenario1)))))"
proof -
  have h: "scenario1 \<noteq> []" "(1::int) \<le> 5" by (simp_all add: scenario1_def)
  have l: "(5::int) \<le> 2 ^ 1000" by simp
  from counts_cover_all_places [OF h, of offline] h l show ?thesis by blast
qed

text \<open>
  Claim C2. For a non-empty list of places and a grid size \<open>g \<ge> 1\<close>: the grid is
  computed whenever \<open>g\<close> is at most \<open>2^1000\<close>, and on every grid that is
  computed the row and the column bin of every place lie in \<open>0 \<le> bin < g\<close>; a bin
  computed as \<open>g\<close> or more is clamped to \<open>g - 1\<close>, any other bin is kept; and these
  bins are the ones written into the key of the place's cell.
\<close>

theorem bins_within_grid:
  assumes "places \<noteq> []" and "1 \<le> g"
  shows "(g \<le> 2 ^ 1000 \<longrightarrow> (\<exists>gr. make_grid places g = Inr gr)) \<and>
     (\<forall>gr. make_grid places g = Inr gr \<longrightarrow>
        (\<forall>p \<in> set places.
           0 \<le> lat_bin gr g p \<and> lat_bin gr g p < g \<and>
           0 \<le> lng_bin gr g p \<and> lng_bin gr g p < g \<and>
           lat_bin gr g p = (if g \<le> raw_bin (lat p) (min_lat gr) (lat_step gr) then g - 1
                             else raw_bin (lat p) (min_lat gr) (lat_step gr)) \<and>
           lng_bin gr g p = (if g \<le> raw_bin (lng p) (min_lng gr) (lng_step gr) then g - 1
                             else raw_bin (lng p) (min_lng gr) (lng_step gr)) \<and>
           parse_key (grid_key gr g p) = Inr (lat_bin gr g p, lng_bin gr g p)))"
proof (intro conjI allI impI ballI)
  assume "g \<le> 2 ^ 1000"
  with assms(2) in_float_range [of g] have "g < float_limit" by simp
  from report_exists [OF assms this]
  show "\<exists>gr. make_grid places g = Inr gr" by blast
next
  fix gr p assume gr: "make_grid places g = Inr gr" and p: "p \<in> set places"
  from bins_in_range [OF gr assms(2) p]
  show "0 \<le> lat_bin gr g p" "lat_bin gr g p < g" "0 \<le> lng_bin gr g p" "lng_bin gr g p < g"
    by simp_all
  show "lat_bin gr g p = (if g \<le> raw_bin (lat p) (min_lat gr) (lat_step gr) then g - 1
                             else raw_bin (lat p) (min_lat gr) (lat_step gr))"
    by (simp add: lat_bin_def clamp_bin_def)
  show "lng_bin gr g p = (if g \<le> raw_bin (lng p) (min_lng gr) (lng_step gr) then g - 1
                             else raw_bin (lng p) (min_lng gr) (lng_step gr))"
    by (simp add: lng_bin_def clamp_bin_def)
  show "parse_key (grid_key gr g p) = Inr (lat_bin gr g p, lng_bin gr g p)"
    by (rule parse_key_grid_key)
qed

theorem bins_within_grid_witness:
  "scenario1 \<noteq> [] \<and> (1::int) \<le> 5 \<and> (5::int) \<le> 2 ^ 1000 \<and>
   (\<exists>gr. make_grid scenario1 5 = Inr gr \<and>
     (\<forall>p \<in> set scenario1.
        0 \<le> lat_bin gr 5 p \<and> lat_bin gr 5 p < 5 \<and>
        0 \<le> lng_bin gr 5 p \<and> lng_bin gr 5 p < 5 \<and>
        lat_bin gr 5 p = (if 5 \<le> raw_bin (lat p) (min_lat gr) (lat_step gr) then 5 - 1
                          else raw_bin (lat p) (min_lat gr) (lat_step gr)) \<and>
        lng_bin gr 5 p = (if 5 \<le> raw_bin (lng p) (min_lng gr) (lng_step gr) then 5 - 1
                          else raw_bin (lng p) (min_lng gr) (lng_step gr)) \<and>
        parse_key (grid_key gr 5 p) = Inr (lat_bin gr 5 p, lng_bin gr 5 p)))"
proof -
  have h: "scenario1 \<noteq> []" "(1::int) \<le> 5" by (simp_all add: scenario1_def)
  have l: "(5::int) \<le> 2 ^ 1000" by simp
  from bins_within_grid [OF h] h l show ?thesis by blast
qed

text \<open>
  Claim C3. For a non-empty list of places and a grid size \<open>g \<ge> 1\<close>: a report is
  returned whenever \<open>g\<close> is at most \<open>2^1000\<close>, and in every report that is
  returned the hotspots are in non-increasing order of count; of two hotspots with
  equal counts the one whose cell was created first during the scan of the places comes
  first; and the cells and counts are the first three of the ranking of \<open>grid_counts\<close>,
  a function of the list of places and the grid size alone.
\<close>

theorem hotspots_ranked:
  assumes "places \<noteq> []" and "1 \<le> g"
  shows "(g \<le> 2 ^ 1000 \<longrightarrow> (\<exists>r. analyze_density geo (PyList places) g = Inr r)) \<and>
     (\<forall>r. analyze_density geo (PyList places) g = Inr r \<longrightarrow>
        sorted_wrt (\<lambda>a b. count b \<le> count a) (hotspots r) \<and>
        (\<exists>gr. make_grid places g = Inr gr \<and>
           sorted_wrt
             (\<lambda>a b. count b < count a \<or>
                (count a = count b \<and>
                 first_index (grid_cell a) (map (grid_key gr g) places)
                   < first_index (grid_cell b) (map (grid_key gr g) places)))
             (hotspots r) \<and>
           map (\<lambda>h. (grid_cell h, count h)) (hotspots r) = take 3 (ranked_cells gr g places)))"
proof (intro conjI allI impI)
  assume "g \<le> 2 ^ 1000"
  with assms(2) in_float_range [of g] have "g < float_limit" by simp
  from report_exists [OF assms this, of geo]
  show "\<exists>r. analyze_density geo (PyList places) g = Inr r" by blast
next
  fix r assume r: "analyze_density geo (PyList places) g = Inr r"
  from analyze_density_Inr(2) [OF r] obtain gr hs where
    gr: "make_grid places g = Inr gr" and
    hs: "hotspot_details geo gr 0 (take 3 (ranked_cells gr g places)) = Inr hs" and
    rep: "r = \<lparr>total_places = int (length places), grid_size = g, hotspots = hs\<rparr>"
    by blast
  let ?ks = "map (grid_key gr g) places"
  let ?Q = "\<lambda>a b. snd b < snd a \<or>
     (snd a = snd b \<and> first_index (fst a) ?ks < first_index (fst b) ?ks)"
  have cells: "map (\<lambda>h. (grid_cell h, count h)) hs = take 3 (ranked_cells gr g places)"
    using hs by (rule hotspot_details_cells)
  have "sorted_wrt ?Q (take 3 (ranked_cells gr g places))"
    using ranked_cells_order [of gr g places] by (rule sorted_wrt_take)
  then have "sorted_wrt ?Q (map (\<lambda>h. (grid_cell h, count h)) hs)"
    by (simp only: cells)
  then have tie: "sorted_wrt
       (\<lambda>a b. count b < count a \<or>
          (count a = count b \<and>
           first_index (grid_cell a) ?ks < first_index (grid_cell b) ?ks)) hs"
    by (simp add: sorted_wrt_map)
  then have "sorted_wrt (\<lambda>a b. count b \<le> count a) hs"
    by (rule sorted_wrt_mono_rel [rotated]) auto
  then show "sorted_wrt (\<lambda>a b. count b \<le> count a) (hotspots r)" by (simp add: rep)
  show "\<exists>gr. make_grid places g = Inr gr \<and>
           sorted_wrt
             (\<lambda>a b. count b < count a \<or>
                (count a = count b \<and>
                 first_index (grid_cell a) (map (grid_key gr g) places)
                   < first_index (grid_cell b) (map (grid_key gr g) places)))
             (hotspots r) \<and>
           map (\<lambda>h. (grid_cell h, count h)) (hotspots r) = take 3 (ranked_cells gr g places)"
    using gr tie cells by (intro exI [of _ gr] conjI) (simp_all add: rep)
qed

theorem hotspots_ranked_witness:
  "diagonal \<noteq> [] \<and> (1::int) \<le> 4 \<and> (4::int) \<le> 2 ^ 1000 \<and>
   (\<exists>r. analyze_density offline (PyList diagonal) 4 = Inr r \<and>
      sorted_wrt (\<lambda>a b. count b \<le> count a) (hotspots r) \<and>
      (\<exists>gr. make_grid diagonal 4 = Inr gr \<and>
         sorted_wrt
           (\<lambda>a b. count b < count a \<or>
              (count a = count b \<and>
               first_index (grid_cell a) (map (grid_key gr 4) diagonal)
                 < first_index (grid_cell b) (map (grid_key gr 4) diagonal)))
           (hotspots r) \<and>
         map (\<lambda>h. (grid_cell h, count h)) (hotspots r) = take 3 (ranked_cells gr 4 diagonal)))"
proof -
  have h: "diagonal \<noteq> []" "(1::int) \<le> 4" by (simp_all add: diagonal_def)
  have l: "(4::int) \<le> 2 ^ 1000" by simp
  from hotspots_ranked [OF h, of offline] h l show ?thesis by blast
qed

lemma degenerate_bins:
  assumes "places \<noteq> []" and "make_grid places g = Inr gr" and "p \<in> set places"
    and "Max (lat ` set places) = Min (lat ` set places)"
    and "Max (lng ` set places) = Min (lng ` set places)"
  shows "lat_bin gr g p = clamp_bin 0 g" and "lng_bin gr g p = clamp_bin 0 g"
  using degenerate_axis_Min [OF assms(4,3)] degenerate_axis_Min [OF assms(5,3)]
  by (simp_all add: lat_bin_def lng_bin_def make_grid_Inr(1,2) [OF assms(1,2)] raw_bin_at_min)

text \<open>
  Claim C4. For a non-empty list of places and a grid size \<open>g \<ge> 1\<close>, what
  \<open>analyze_density\<close> returns is either a complete report (the number of places, the
  grid size, and one hotspot for each of the at most three top cells, at least one), or
  the single error value of a caught exception. No division by zero occurs; the only
  exception there can be is an \<open>OverflowError\<close>, for a grid size above \<open>2^1000\<close>, so
  that up to this size the report is always returned.
\<close>

theorem valid_input_gives_report:
  assumes "places \<noteq> []" and "1 \<le> g"
  shows "(\<exists>gr r. make_grid places g = Inr gr \<and>
        analyze_density geo (PyList places) g = Inr r \<and>
        total_places r = int (length places) \<and> grid_size r = g \<and>
        hotspots r \<noteq> [] \<and>
        length (hotspots r) = min 3 (length (cell_counts gr g places))) \<or>
     (2 ^ 1000 < g \<and> analyze_density geo (PyList places) g = Inl (Caught OverflowError))"
proof -
  have complete: "\<exists>gr r. make_grid places g = Inr gr \<and>
        analyze_density geo (PyList places) g = Inr r \<and>
        total_places r = int (length places) \<and> grid_size r = g \<and>
        hotspots r \<noteq> [] \<and>
        length (hotspots r) = min 3 (length (cell_counts gr g places))"
    if gr: "make_grid places g = Inr gr"
      and hs: "hotspot_details geo gr 0 (take 3 (ranked_cells gr g places)) = Inr hs" for gr hs
  proof -
    have len: "length hs = min 3 (length (cell_counts gr g places))"
      using hotspot_details_length [OF hs]
      by (simp add: ranked_cells_def length_sorted_reverse min.commute)
    have "fst ` set (cell_counts gr g places) \<noteq> {}"
      using assms(1) by (simp add: keys_cell_counts)
    then have "cell_counts gr g places \<noteq> []" by auto
    with len have "hs \<noteq> []" by (cases "cell_counts gr g places") auto
    with gr len analyze_density_report [OF assms(1) gr hs] show ?thesis by simp
  qed
  show ?thesis
  proof (cases "g < float_limit")
    case True
    from report_exists [OF assms True, of geo] complete show ?thesis by blast
  next
    case False
    have big: "2 ^ 1000 < g"
    proof (rule ccontr)
      assume "\<not> 2 ^ 1000 < g"
      then have "\<bar>g\<bar> \<le> 2 ^ 1000" using assms(2) by simp
      from in_float_range [OF this] False show False by simp
    qed
    show ?thesis
    proof (cases "make_grid places g")
      case (Inl e)
      from make_grid_Inl [OF assms(1) Inl] axis_step_Inl assms(2) have "e = OverflowError"
        by fastforce
      with analyze_density_grid_error [OF assms(1) Inl, of geo] big show ?thesis by simp
    next
      case (Inr gr)
      from make_grid_Inr(3,4) [OF assms(1) Inr] axis_step_Inr False assms(2)
      have deg: "Max (lat ` set places) = Min (lat ` set places)"
        "Max (lng ` set places) = Min (lng ` set places)"
        by fastforce+
      have "\<forall>p \<in> set places. \<bar>lat_bin gr g p\<bar> < float_limit \<and> \<bar>lng_bin gr g p\<bar> < float_limit"
        using degenerate_bins [OF assms(1) Inr _ deg] assms(2) float_limit_positive
        by (simp add: clamp_bin_def)
      from hotspots_in_range [OF Inr this, of geo] obtain hs where
        "hotspot_details geo gr 0 (take 3 (ranked_cells gr g places)) = Inr hs" by blast
      from complete [OF Inr this] show ?thesis by blast
    qed
  qed
qed

theorem valid_input_gives_report_witness:
  "scenario1 \<noteq> [] \<and> (1::int) \<le> 5 \<and>
   (\<exists>gr r. make_grid scenario1 5 = Inr gr \<and>
      analyze_density offline (PyList scenario1) 5 = Inr r \<and>
      total_places r = int (length scenario1) \<and> grid_size r = 5 \<and>
      hotspots r \<noteq> [] \<and>
      length (hotspots r) = min 3 (length (cell_counts gr 5 scenario1)))"
proof -
  have h: "scenario1 \<noteq> []" "(1::int) \<le> 5" by (simp_all add: scenario1_def)
  have l: "\<not> 2 ^ 1000 < (5::int)" by simp
  from valid_input_gives_report [OF h, of offline] h l show ?thesis by blast
qed

lemma raw_bin_negative_step:
  assumes "lo \<le> v" and "v \<le> hi" and "lo < hi" and "g < 0"
  shows "g \<le> raw_bin v lo ((hi - lo) / of_int g)"
proof -
  let ?x = "(v - lo) / ((hi - lo) / of_int g)"
  have x: "?x = of_int g * ((v - lo) / (hi - lo))" by simp
  have "(v - lo) / (hi - lo) \<le> 1" using assms(1,2,3) by simp
  moreover have "(of_int g :: rat) < 0" using assms(4) by simp
  ultimately have "of_int g * 1 \<le> of_int g * ((v - lo) / (hi - lo))"
    by (intro mult_left_mono_neg) simp_all
  then have ge: "of_int g \<le> ?x" by (simp only: x mult_1_right)
  then have "g \<le> \<lfloor>?x\<rfloor>" "g \<le> \<lceil>?x\<rceil>" by linarith+
  moreover have "(hi - lo) / rat_of_int g \<noteq> 0" using assms(3,4) by simp
  ultimately show ?thesis
    by (simp only: raw_bin_def int_of_float_def if_True split: if_split) auto
qed

lemma bins_nonpositive_grid_size:
  assumes "make_grid places g = Inr gr" and "g \<le> 0" and "p \<in> set places"
  shows "lat_bin gr g p = g - 1" and "lng_bin gr g p = g - 1"
proof -
  from assms(3) have ne: "places \<noteq> []" by auto
  note mg = make_grid_Inr [OF ne assms(1)]
  have raw: "g \<le> raw_bin (f p) (Min (f ` set places)) s"
    if "axis_step (Min (f ` set places)) (Max (f ` set places)) g = Inr s" for f s
  proof -
    from axis_step_Inr [OF that] show ?thesis
    proof
      assume "Max (f ` set places) = Min (f ` set places) \<and> s = 1 / 100"
      then show ?thesis
        using degenerate_axis_Min [of f places p] assms(2,3) by (simp add: raw_bin_at_min)
    next
      assume a: "Max (f ` set places) \<noteq> Min (f ` set places) \<and> g \<noteq> 0 \<and> \<bar>g\<bar> < float_limit \<and>
        s = (Max (f ` set places) - Min (f ` set places)) / of_int g"
      have "Min (f ` set places) \<le> f p" "f p \<le> Max (f ` set places)"
        using assms(3) by simp_all
      moreover have "Min (f ` set places) < Max (f ` set places)"
        using a Min_le_Max_image [OF ne, of f] by simp
      moreover have "g < 0" using a assms(2) by simp
      ultimately show ?thesis
        using raw_bin_negative_step a by simp
    qed
  qed
  show "lat_bin gr g p = g - 1"
    using raw [OF mg(3)] by (simp add: lat_bin_def clamp_bin_def mg(1))
  show "lng_bin gr g p = g - 1"
    using raw [OF mg(4)] by (simp add: lng_bin_def clamp_bin_def mg(2))
qed

text \<open>
  Claim C5, as the code has it. \<open>analyze_density\<close> does not check the grid size and
  has no result for an invalid configuration. For a non-empty list of places and an
  integer grid size \<open>g \<le> 0\<close> (of a magnitude up to \<open>2^1000\<close>), it returns
  the error value of the caught division by zero exactly when \<open>g = 0\<close> and two places
  differ in latitude or in longitude; in every other case (a negative \<open>g\<close>, or \<open>g = 0\<close>
  with all places at one point) it returns a computed report, with \<open>total_places\<close> the
  number of places and \<open>grid_size\<close> the given \<open>g\<close>.
\<close>

theorem grid_size_unchecked:
  assumes "places \<noteq> []" and "g \<le> 0" and "- (2 ^ 1000) \<le> g"
  shows "if g = 0 \<and> (\<exists>p \<in> set places. \<exists>q \<in> set places. lat p \<noteq> lat q \<or> lng p \<noteq> lng q)
     then analyze_density geo (PyList places) g = Inl (Caught ZeroDivisionError)
     else (\<exists>r. analyze_density geo (PyList places) g = Inr r \<and>
             total_places r = int (length places) \<and> grid_size r = g)"
proof -
  let ?differ = "\<exists>p \<in> set places. \<exists>q \<in> set places. lat p \<noteq> lat q \<or> lng p \<noteq> lng q"
  have rng: "\<bar>g\<bar> + 1 < float_limit"
    using assms(2,3) in_float_range [of g] by simp
  have report: "\<exists>r. analyze_density geo (PyList places) g = Inr r \<and>
             total_places r = int (length places) \<and> grid_size r = g"
    if gr: "make_grid places g = Inr gr" for gr
  proof -
    have "\<forall>p \<in> set places. \<bar>lat_bin gr g p\<bar> < float_limit \<and> \<bar>lng_bin gr g p\<bar> < float_limit"
      using bins_nonpositive_grid_size [OF gr assms(2)] assms(2) rng by simp
    from hotspots_in_range [OF gr this, of geo] obtain hs where
      "hotspot_details geo gr 0 (take 3 (ranked_cells gr g places)) = Inr hs" by blast
    from analyze_density_report [OF assms(1) gr this]
    have r: "analyze_density geo (PyList places) g =
            Inr \<lparr>total_places = int (length places), grid_size = g, hotspots = hs\<rparr>" .
    show ?thesis
      by (rule exI, rule conjI [OF r]) simp
  qed
  show ?thesis
  proof (cases "g = 0 \<and> ?differ")
    case True
    then have "Max (lat ` set places) \<noteq> Min (lat ` set places) \<or>
               Max (lng ` set places) \<noteq> Min (lng ` set places)"
      using degenerate_axis [OF assms(1), of lat] degenerate_axis [OF assms(1), of lng] by blast
    then have "make_grid places 0 = Inl ZeroDivisionError"
      by (auto simp: make_grid_steps [OF assms(1)] axis_step_def truediv_zero)
    then have "analyze_density geo (PyList places) g = Inl (Caught ZeroDivisionError)"
      using True analyze_density_grid_error [OF assms(1), of 0 ZeroDivisionError geo] by simp
    with True show ?thesis by simp
  next
    case False
    have "\<exists>gr. make_grid places g = Inr gr"
    proof (cases "g = 0")
      case g0: True
      with False have same: "\<forall>p \<in> set places. \<forall>q \<in> set places. lat p = lat q \<and> lng p = lng q"
        by blast
      have "Max (lat ` set places) = Min (lat ` set places)"
        unfolding degenerate_axis [OF assms(1)] using same by blast
      moreover have "Max (lng ` set places) = Min (lng ` set places)"
        unfolding degenerate_axis [OF assms(1)] using same by blast
      ultimately have "make_grid places g =
          Inr \<lparr>min_lat = Min (lat ` set places), min_lng = Min (lng ` set places),
               lat_step = 1 / 100, lng_step = 1 / 100\<rparr>"
        by (simp add: make_grid_steps [OF assms(1)] axis_step_degenerate)
      then show ?thesis by (rule exI)
    next
      case False
      moreover have "\<bar>g\<bar> < float_limit" using rng by simp
      ultimately show ?thesis
        using make_grid_in_range [OF assms(1)] by blast
    qed
    then obtain gr where "make_grid places g = Inr gr" by blast
    from report [OF this] have "\<exists>r. analyze_density geo (PyList places) g = Inr r \<and>
             total_places r = int (length places) \<and> grid_size r = g" .
    with False show ?thesis by (simp only: if_False)
  qed
qed

theorem grid_size_unchecked_witness:
  "[place_at 10 20, place_at 11 20] \<noteq> [] \<and> (0::int) \<le> 0 \<and> - (2 ^ 1000) \<le> (0::int) \<and>
   (\<exists>p \<in> set [place_at 10 20, place_at 11 20]. \<exists>q \<in> set [place_at 10 20, place_at 11 20].
      lat p \<noteq> lat q \<or> lng p \<noteq> lng q) \<and>
   analyze_density offline (PyList [place_at 10 20, place_at 11 20]) 0 = Inl (Caught ZeroDivisionError) \<and>
   [place_at 10 20] \<noteq> [] \<and> (- 1::int) \<le> 0 \<and> - (2 ^ 1000) \<le> (- 1::int) \<and>
   (\<exists>r. analyze_density offline (PyList [place_at 10 20]) (- 1) = Inr r \<and>
      total_places r = int (length [place_at 10 20]) \<and> grid_size r = - 1)"
proof -
  have l: "- (2 ^ 1000) \<le> (0::int)" "- (2 ^ 1000) \<le> (- 1::int)" by simp_all
  have d: "\<exists>p \<in> set [place_at 10 20, place_at 11 20]. \<exists>q \<in> set [place_at 10 20, place_at 11 20].
      lat p \<noteq> lat q \<or> lng p \<noteq> lng q"
    by (rule bexI [of _ "place_at 10 20"], rule bexI [of _ "place_at 11 20"])
      (simp_all add: place_at_def)
  have a: "analyze_density offline (PyList [place_at 10 20, place_at 11 20]) 0 = Inl (Caught ZeroDivisionError)"
    using grid_size_unchecked [of "[place_at 10 20, place_at 11 20]" 0 offline] d l(1) by simp
  have b: "\<exists>r. analyze_density offline (PyList [place_at 10 20]) (- 1) = Inr r \<and>
      total_places r = int (length [place_at 10 20]) \<and> grid_size r = - 1"
    using grid_size_unchecked [of "[place_at 10 20]" "- 1" offline] l(2) by simp
  show ?thesis
    by (intro conjI a b d l) simp_all
qed

text \<open>
  Claim C5 as stated, that a grid size which is not a positive integer yields a
  distinguished failure and no computed report, fails: for one place and the grid size
  \<open>-1\<close> the code computes a report, whose only cell is \<open>-2,-2\<close>.
\<close>

theorem negative_grid_size_report:
  "analyze_density offline (PyList [place_at 10 20]) (- 1) =
     Inr \<lparr>total_places = 1, grid_size = - 1,
          hotspots =
            [\<lparr>grid_cell = ''-2,-2'', count = 1, center_lat = 1997 / 200,
               center_lng = 3997 / 200, approximate_location = ''Unknown location''\<rparr>]\<rparr>"
  by code_simp

text \<open>
  Claim C6. When \<open>places\<close> is the empty list or is not a list, \<open>analyze_density\<close>
  returns the error value \<open>{"error": "No places to analyze"}\<close> and no report.
\<close>

theorem no_places_error:
  "analyze_density geo (PyList []) g = Inl NoPlaces \<and>
   analyze_density geo (PyDict d) g = Inl NoPlaces \<and>
   analyze_density geo PyNone g = Inl NoPlaces"
  by (simp add: analyze_density_def)

lemma count_places_single_key:
  "\<forall>p \<in> set ps. grid_key gr g p = k \<Longrightarrow>
   count_places gr g ps [(k, c)] = [(k, c + int (length ps))]"
  by (induction ps arbitrary: c) auto

lemma cell_counts_single_key:
  assumes "ps \<noteq> []" and "\<forall>p \<in> set ps. grid_key gr g p = k"
  shows "cell_counts gr g ps = [(k, int (length ps))]"
proof -
  from assms(1) obtain p ps' where ps: "ps = p # ps'" by (cases ps) auto
  with assms(2) have "grid_key gr g p = k" "\<forall>p \<in> set ps'. grid_key gr g p = k" by auto
  then show ?thesis
    using count_places_single_key [of ps' gr g k 1]
    by (simp add: cell_counts_def ps)
qed

lemma str_int_zero: "str_int 0 = ''0''"
  by code_simp

lemma parse_key_origin: "parse_key ''0,0'' = Inr (0, 0)"
  using parse_key_format [of 0 0] by (simp add: str_int_zero)

lemma float_of_int_zero: "float_of_int 0 = Inr 0"
  using float_of_int_in_range [of 0] float_limit_positive by simp

text \<open>
  Claim C7. For a non-empty list of places that all have the same latitude and the same
  longitude, with a grid size of at least 1: both steps are the fallback \<open>0.01\<close>, nothing
  raises, every place falls into cell \<open>(0, 0)\<close>, and the report has exactly one hotspot,
  the cell \<open>0,0\<close>, whose count is \<open>total_places\<close>, the number of places.
\<close>

theorem identical_points_one_cell:
  assumes "places \<noteq> []" and "1 \<le> g" and "\<forall>p \<in> set places. lat p = a \<and> lng p = b"
  shows "\<exists>gr r h. make_grid places g = Inr gr \<and>
     lat_step gr = 1 / 100 \<and> lng_step gr = 1 / 100 \<and>
     (\<forall>p \<in> set places. lat_bin gr g p = 0 \<and> lng_bin gr g p = 0 \<and> grid_key gr g p = ''0,0'') \<and>
     analyze_density geo (PyList places) g = Inr r \<and>
     hotspots r = [h] \<and> grid_cell h = ''0,0'' \<and> count h = total_places r \<and>
     total_places r = int (length places)"
proof -
  have la: "lat ` set places = {a}" and lo: "lng ` set places = {b}"
    using assms(1,3) by (auto simp: image_iff) (metis last_in_set)+
  define gr where "gr = \<lparr>min_lat = a, min_lng = b, lat_step = 1 / 100, lng_step = 1 / 100\<rparr>"
  have gr: "make_grid places g = Inr gr"
    by (simp add: make_grid_steps [OF assms(1)] la lo axis_step_degenerate gr_def)
  have bins: "lat_bin gr g p = 0 \<and> lng_bin gr g p = 0" if "p \<in> set places" for p
    using that assms(2,3)
    by (simp add: lat_bin_def lng_bin_def raw_bin_def clamp_bin_def int_of_float_def gr_def)
  then have keys: "\<forall>p \<in> set places. grid_key gr g p = ''0,0''"
    by (simp add: grid_key_def str_int_zero)
  have cc: "cell_counts gr g places = [(''0,0'', int (length places))]"
    using cell_counts_single_key [OF assms(1) keys] .
  have rk: "take 3 (ranked_cells gr g places) = [(''0,0'', int (length places))]"
    by (simp add: ranked_cells_def cc sorted_reverse_def)
  obtain h where h: "hotspot_details geo gr 0 [(''0,0'', int (length places))] = Inr [h]"
    "grid_cell h = ''0,0''" "count h = int (length places)"
    by (simp add: parse_key_origin float_of_int_zero Let_def)
  from analyze_density_report [OF assms(1) gr, of geo "[h]"] h(1)
  have r: "analyze_density geo (PyList places) g =
          Inr \<lparr>total_places = int (length places), grid_size = g, hotspots = [h]\<rparr>"
    by (simp add: rk)
  show ?thesis
    using gr bins keys r h(2,3) by (auto simp: gr_def)
qed

theorem identical_points_one_cell_witness:
  "[place_at 10 20, place_at 10 20] \<noteq> [] \<and> (1::int) \<le> 5 \<and>
   lat (place_at 10 20) = 10 \<and> lng (place_at 10 20) = 20 \<and>
   (\<exists>gr r h. make_grid [place_at 10 20, place_at 10 20] 5 = Inr gr \<and>
     lat_step gr = 1 / 100 \<and> lng_step gr = 1 / 100 \<and>
     (\<forall>p \<in> set [place_at 10 20, place_at 10 20].
        lat_bin gr 5 p = 0 \<and> lng_bin gr 5 p = 0 \<and> grid_key gr 5 p = ''0,0'') \<and>
     analyze_density offline (PyList [place_at 10 20, place_at 10 20]) 5 = Inr r \<and>
     hotspots r = [h] \<and> grid_cell h = ''0,0'' \<and> count h = total_places r \<and>
     total_places r = int (length [place_at 10 20, place_at 10 20]))"
proof -
  have h: "[place_at 10 20, place_at 10 20] \<noteq> []" "(1::int) \<le> 5"
    "\<forall>p \<in> set [place_at 10 20, place_at 10 20]. lat p = 10 \<and> lng p = 20"
    by (simp_all add: place_at_def)
  have c: "lat (place_at 10 20) = 10 \<and> lng (place_at 10 20) = 20"
    by (simp add: place_at_def)
  from identical_points_one_cell [OF h, of offline] h(1,2) c show ?thesis by blast
qed

lemma card_cells:
  "length (cell_counts gr g places) = card ((\<lambda>p. (lat_bin gr g p, lng_bin gr g p)) ` set places)"
proof -
  let ?fmt = "\<lambda>rc. str_int (fst rc) @ CHR '','' # str_int (snd rc)"
  let ?bins = "\<lambda>p. (lat_bin gr g p, lng_bin gr g p)"
  have inj: "inj ?fmt"
  proof (rule injI)
    fix x y :: "int \<times> int"
    assume "?fmt x = ?fmt y"
    then have "parse_key (?fmt x) = parse_key (?fmt y)" by simp
    then show "x = y" by (simp add: parse_key_format prod_eq_iff)
  qed
  have "length (cell_counts gr g places) = card (set (map fst (cell_counts gr g places)))"
    using distinct_card [OF distinct_cell_counts [of gr g places]] by simp
  also have "set (map fst (cell_counts gr g places)) = grid_key gr g ` set places"
    by (simp add: keys_cell_counts)
  also have "grid_key gr g ` set places = ?fmt ` (?bins ` set places)"
    by (auto simp: grid_key_def image_iff)
  also have "card (?fmt ` (?bins ` set places)) = card (?bins ` set places)"
    using inj by (meson card_image inj_on_subset subset_UNIV)
  finally show ?thesis .
qed

lemma ranked_rest_below:
  assumes "x \<in> set (take n (ranked_cells gr g places))"
    and "y \<in> set (drop n (ranked_cells gr g places))"
  shows "snd y \<le> snd x"
proof -
  have "sorted_wrt (\<lambda>a b. snd b \<le> snd a) (ranked_cells gr g places)"
    using ranked_cells_order [of gr g places]
    by (rule sorted_wrt_mono_rel [rotated]) auto
  then have "sorted_wrt (\<lambda>a b. snd b \<le> snd a)
     (take n (ranked_cells gr g places) @ drop n (ranked_cells gr g places))"
    by simp
  with assms show ?thesis
    unfolding sorted_wrt_append by blast
qed

lemma top_cells:
  assumes gr: "make_grid places g = Inr gr"
    and hs: "hotspot_details geo gr 0 (take 3 (ranked_cells gr g places)) = Inr hs"
  shows "length hs = min 3 (card ((\<lambda>p. (lat_bin gr g p, lng_bin gr g p)) ` set places))"
    and "distinct (map grid_cell hs)"
    and "\<forall>h \<in> set hs. (grid_cell h, count h) \<in> set (cell_counts gr g places)"
    and "\<forall>h \<in> set hs. \<forall>kc \<in> set (cell_counts gr g places).
           fst kc \<notin> grid_cell ` set hs \<longrightarrow> snd kc \<le> count h"
    and "\<forall>h \<in> set hs. \<exists>row col.
           parse_key (grid_cell h) = Inr (row, col) \<and>
           (\<exists>p \<in> set places. row = lat_bin gr g p \<and> col = lng_bin gr g p) \<and>
           center_lat h = min_lat gr + (of_int row + 1 / 2) * lat_step gr \<and>
           center_lng h = min_lng gr + (of_int col + 1 / 2) * lng_step gr"
proof -
  let ?top = "take 3 (ranked_cells gr g places)"
  have cells: "map (\<lambda>h. (grid_cell h, count h)) hs = ?top"
    using hs by (rule hotspot_details_cells)
  have set_ranked: "set (ranked_cells gr g places) = set (cell_counts gr g places)"
    by (simp add: ranked_cells_def set_sorted_reverse)
  show "length hs = min 3 (card ((\<lambda>p. (lat_bin gr g p, lng_bin gr g p)) ` set places))"
    using hotspot_details_length [OF hs] card_cells [of gr g places]
    by (simp add: ranked_cells_def length_sorted_reverse min.commute)
  have keys: "map grid_cell hs = map fst ?top"
    using arg_cong [OF cells, of "map fst"] by (simp add: comp_def)
  have "distinct (map fst (ranked_cells gr g places))"
    unfolding ranked_cells_def
    using distinct_cell_counts by (rule distinct_keys_sorted_reverse)
  then show "distinct (map grid_cell hs)"
    by (simp add: keys take_map [symmetric] distinct_take)
  have in_top: "(grid_cell h, count h) \<in> set ?top" if "h \<in> set hs" for h
  proof -
    from that have "(grid_cell h, count h) \<in> set (map (\<lambda>h. (grid_cell h, count h)) hs)"
      by (simp add: image_iff) blast
    then show ?thesis by (simp only: cells)
  qed
  have mem: "(grid_cell h, count h) \<in> set (cell_counts gr g places)" if "h \<in> set hs" for h
    using in_set_takeD [OF in_top [OF that]] by (simp add: set_ranked)
  then show "\<forall>h \<in> set hs. (grid_cell h, count h) \<in> set (cell_counts gr g places)" by blast
  have top: "snd kc \<le> count h"
    if "h \<in> set hs" "kc \<in> set (cell_counts gr g places)" "fst kc \<notin> grid_cell ` set hs" for h kc
  proof -
    have "fst kc \<notin> set (map fst ?top)"
      using that(3) keys by (metis list.set_map)
    then have "kc \<notin> set ?top" by auto
    moreover have "kc \<in> set (?top @ drop 3 (ranked_cells gr g places))"
      using that(2) set_ranked by simp
    ultimately have "kc \<in> set (drop 3 (ranked_cells gr g places))"
      by (simp only: set_append Un_iff) blast
    from ranked_rest_below [OF in_top [OF that(1)] this] show ?thesis by simp
  qed
  then show "\<forall>h \<in> set hs. \<forall>kc \<in> set (cell_counts gr g places).
           fst kc \<notin> grid_cell ` set hs \<longrightarrow> snd kc \<le> count h" by blast
  have centre: "\<exists>row col.
        parse_key (grid_cell h) = Inr (row, col) \<and>
        (\<exists>p \<in> set places. row = lat_bin gr g p \<and> col = lng_bin gr g p) \<and>
        center_lat h = min_lat gr + (of_int row + 1 / 2) * lat_step gr \<and>
        center_lng h = min_lng gr + (of_int col + 1 / 2) * lng_step gr"
    if "h \<in> set hs" for h
  proof -
    from that obtain i where i: "i < length hs" "hs ! i = h"
      by (auto simp: in_set_conv_nth)
    from hotspot_details_nth [OF hs i(1)] obtain row col where
      rc: "parse_key (grid_cell h) = Inr (row, col)"
        "center_lat h = min_lat gr + (of_int row + 1 / 2) * lat_step gr"
        "center_lng h = min_lng gr + (of_int col + 1 / 2) * lng_step gr"
      by (auto simp: i(2))
    from mem [OF that] have "grid_cell h \<in> fst ` set (cell_counts gr g places)"
      by (metis fst_conv image_eqI)
    then obtain p where p: "p \<in> set places" "grid_cell h = grid_key gr g p"
      by (auto simp: keys_cell_counts)
    with rc(1) have "row = lat_bin gr g p" "col = lng_bin gr g p"
      by (simp_all add: parse_key_grid_key)
    with rc p(1) show ?thesis by blast
  qed
  then show "\<forall>h \<in> set hs. \<exists>row col.
           parse_key (grid_cell h) = Inr (row, col) \<and>
           (\<exists>p \<in> set places. row = lat_bin gr g p \<and> col = lng_bin gr g p) \<and>
           center_lat h = min_lat gr + (of_int row + 1 / 2) * lat_step gr \<and>
           center_lng h = min_lng gr + (of_int col + 1 / 2) * lng_step gr" by blast
qed

text \<open>
  Claim C8. For a non-empty list of places and a grid size \<open>g \<ge> 1\<close>: a report is
  returned whenever \<open>g\<close> is at most \<open>2^1000\<close>, and in every report that is
  returned the hotspots are cells of \<open>grid_counts\<close> with their counts, pairwise
  different, as many as \<open>min(3, number of occupied cells)\<close>, so never padded; every
  cell that is not reported has a count no larger than any reported one; and the centre
  of each hotspot is
  \<open>(min_lat + (row + 0.5) * lat_step, min_lng + (col + 0.5) * lng_step)\<close> for the row
  and column read from its key, which are the bins of a place.
\<close>

theorem top_three_hotspots:
  assumes "places \<noteq> []" and "1 \<le> g"
  shows "(g \<le> 2 ^ 1000 \<longrightarrow> (\<exists>r. analyze_density geo (PyList places) g = Inr r)) \<and>
     (\<forall>r. analyze_density geo (PyList places) g = Inr r \<longrightarrow>
        (\<exists>gr. make_grid places g = Inr gr \<and>
           length (hotspots r)
             = min 3 (card ((\<lambda>p. (lat_bin gr g p, lng_bin gr g p)) ` set places)) \<and>
           distinct (map grid_cell (hotspots r)) \<and>
           (\<forall>h \<in> set (hotspots r). (grid_cell h, count h) \<in> set (cell_counts gr g places)) \<and>
           (\<forall>h \<in> set (hotspots r). \<forall>kc \<in> set (cell_counts gr g places).
              fst kc \<notin> grid_cell ` set (hotspots r) \<longrightarrow> snd kc \<le> count h) \<and>
           (\<forall>h \<in> set (hotspots r). \<exists>row col.
              parse_key (grid_cell h) = Inr (row, col) \<and>
              (\<exists>p \<in> set places. row = lat_bin gr g p \<and> col = lng_bin gr g p) \<and>
              center_lat h = min_lat gr + (of_int row + 1 / 2) * lat_step gr \<and>
              center_lng h = min_lng gr + (of_int col + 1 / 2) * lng_step gr)))"
proof (intro conjI allI impI)
  assume "g \<le> 2 ^ 1000"
  with assms(2) in_float_range [of g] have "g < float_limit" by simp
  from report_exists [OF assms this, of geo]
  show "\<exists>r. analyze_density geo (PyList places) g = Inr r" by blast
next
  fix r assume r: "analyze_density geo (PyList places) g = Inr r"
  from analyze_density_Inr(2) [OF r] obtain gr hs where
    gr: "make_grid places g = Inr gr" and
    hs: "hotspot_details geo gr 0 (take 3 (ranked_cells gr g places)) = Inr hs" and
    rep: "hotspots r = hs"
    by auto
  show "\<exists>gr. make_grid places g = Inr gr \<and>
           length (hotspots r)
             = min 3 (card ((\<lambda>p. (lat_bin gr g p, lng_bin gr g p)) ` set places)) \<and>
           distinct (map grid_cell (hotspots r)) \<and>
           (\<forall>h \<in> set (hotspots r). (grid_cell h, count h) \<in> set (cell_counts gr g places)) \<and>
           (\<forall>h \<in> set (hotspots r). \<forall>kc \<in> set (cell_counts gr g places).
              fst kc \<notin> grid_cell ` set (hotspots r) \<longrightarrow> snd kc \<le> count h) \<and>
           (\<forall>h \<in> set (hotspots r). \<exists>row col.
              parse_key (grid_cell h) = Inr (row, col) \<and>
              (\<exists>p \<in> set places. row = lat_bin gr g p \<and> col = lng_bin gr g p) \<and>
              center_lat h = min_lat gr + (of_int row + 1 / 2) * lat_step gr \<and>
              center_lng h = min_lng gr + (of_int col + 1 / 2) * lng_step gr)"
    unfolding rep
    by (rule exI [of _ gr], intro conjI gr top_cells [OF gr hs])
qed

theorem top_three_hotspots_witness:
  "diagonal \<noteq> [] \<and> (1::int) \<le> 4 \<and> (4::int) \<le> 2 ^ 1000 \<and>
   (\<exists>r. analyze_density offline (PyList diagonal) 4 = Inr r \<and>
      (\<exists>gr. make_grid diagonal 4 = Inr gr \<and>
         length (hotspots r)
           = min 3 (card ((\<lambda>p. (lat_bin gr 4 p, lng_bin gr 4 p)) ` set diagonal)) \<and>
         distinct (map grid_cell (hotspots r)) \<and>
         (\<forall>h \<in> set (hotspots r). (grid_cell h, count h) \<in> set (cell_counts gr 4 diagonal)) \<and>
         (\<forall>h \<in> set (hotspots r). \<forall>kc \<in> set (cell_counts gr 4 diagonal).
            fst kc \<notin> grid_cell ` set (hotspots r) \<longrightarrow> snd kc \<le> count h) \<and>
         (\<forall>h \<in> set (hotspots r). \<exists>row col.
            parse_key (grid_cell h) = Inr (row, col) \<and>
            (\<exists>p \<in> set diagonal. row = lat_bin gr 4 p \<and> col = lng_bin gr 4 p) \<and>
            center_lat h = min_lat gr + (of_int row + 1 / 2) * lat_step gr \<and>
            center_lng h = min_lng gr + (of_int col + 1 / 2) * lng_step gr)))"
proof -
  have h: "diagonal \<noteq> []" "(1::int) \<le> 4" by (simp_all add: diagonal_def)
  have l: "(4::int) \<le> 2 ^ 1000" by simp
  from top_three_hotspots [OF h, of offline] h l show ?thesis by blast
qed

lemma hotspot_details_any_network:
  "hotspot_details geo gr n cells = Inr hs \<Longrightarrow>
   \<exists>hs'. hotspot_details geo' gr n cells = Inr hs' \<and>
     map (\<lambda>h. h\<lparr>approximate_location := []\<rparr>) hs' = map (\<lambda>h. h\<lparr>approximate_location := []\<rparr>) hs"
proof (induction cells arbitrary: n hs)
  case Nil
  then show ?case by simp
next
  case (Cons kc cells)
  obtain k c where kc: "kc = (k, c)" by (cases kc)
  from Cons.prems obtain row col frow fcol tl where
    p: "parse_key k = Inr (row, col)" and
    fr: "float_of_int row = Inr frow" and fc: "float_of_int col = Inr fcol" and
    r: "hotspot_details geo gr (Suc n) cells = Inr tl" and
    hs: "map (\<lambda>h. h\<lparr>approximate_location := []\<rparr>) hs =
           \<lparr>grid_cell = k, count = c,
             center_lat = min_lat gr + (frow + 1 / 2) * lat_step gr,
             center_lng = min_lng gr + (fcol + 1 / 2) * lng_step gr,
             approximate_location = []\<rparr> # map (\<lambda>h. h\<lparr>approximate_location := []\<rparr>) tl"
    by (auto simp: kc Let_def split: sum.splits)
  from Cons.IH [OF r] obtain tl' where
    "hotspot_details geo' gr (Suc n) cells = Inr tl'"
    "map (\<lambda>h. h\<lparr>approximate_location := []\<rparr>) tl' = map (\<lambda>h. h\<lparr>approximate_location := []\<rparr>) tl"
    by blast
  then show ?case by (simp add: kc p fr fc hs Let_def)
qed

lemma reverse_geocode_failure:
  "resp = RequestRaised \<or> (\<exists>st rs. resp = GeoData st rs \<and> (st \<noteq> Some ''OK'' \<or> rs = [])) \<Longrightarrow>
   reverse_geocode resp = ''Unknown location''"
  by (auto simp: reverse_geocode_def)

text \<open>
  Claim C9. Whenever \<open>analyze_density\<close> returns a report with one network, it returns
  a report with every network, with the same total, grid size, cells, counts and
  centres: the outcome of the requests only decides the labels. The label of the
  \<open>i\<close>-th hotspot is what \<open>reverse_geocode\<close> makes of the \<open>i\<close>-th request, and it is
  \<open>Unknown location\<close> when that request raised, or answered with a status other than
  \<open>OK\<close> or without results.
\<close>

theorem labeler_failure_absorbed:
  assumes "analyze_density geo places g = Inr r"
  shows "\<exists>r'. analyze_density geo' places g = Inr r' \<and>
     total_places r' = total_places r \<and> grid_size r' = grid_size r \<and>
     map (\<lambda>h. h\<lparr>approximate_location := []\<rparr>) (hotspots r')
       = map (\<lambda>h. h\<lparr>approximate_location := []\<rparr>) (hotspots r) \<and>
     (\<forall>i < length (hotspots r').
        approximate_location (hotspots r' ! i) =
          reverse_geocode (geo' i (center_lat (hotspots r' ! i)) (center_lng (hotspots r' ! i))) \<and>
        (geo' i (center_lat (hotspots r' ! i)) (center_lng (hotspots r' ! i)) = RequestRaised \<or>
         (\<exists>st rs. geo' i (center_lat (hotspots r' ! i)) (center_lng (hotspots r' ! i)) = GeoData st rs \<and>
            (st \<noteq> Some ''OK'' \<or> rs = []))
         \<longrightarrow> approximate_location (hotspots r' ! i) = ''Unknown location''))"
proof -
  from assms obtain ps where ps: "places = PyList ps" "ps \<noteq> []" and d: "density geo ps g = Inr r"
    by (auto simp: analyze_density_def split: pyobj.splits if_splits sum.splits)
  from d obtain gr hs where gr: "make_grid ps g = Inr gr" and
    hs: "hotspot_details geo gr 0 (take 3 (ranked_cells gr g ps)) = Inr hs" and
    r: "r = \<lparr>total_places = int (length ps), grid_size = g, hotspots = hs\<rparr>"
    by (auto simp: density_def split: sum.splits)
  from hotspot_details_any_network [OF hs, of geo'] obtain hs' where
    hs': "hotspot_details geo' gr 0 (take 3 (ranked_cells gr g ps)) = Inr hs'" and
    same: "map (\<lambda>h. h\<lparr>approximate_location := []\<rparr>) hs' = map (\<lambda>h. h\<lparr>approximate_location := []\<rparr>) hs"
    by blast
  let ?r' = "\<lparr>total_places = int (length ps), grid_size = g, hotspots = hs'\<rparr>"
  have res: "analyze_density geo' places g = Inr ?r'"
    by (simp add: analyze_density_def ps density_def gr hs')
  have lab: "approximate_location (hs' ! i) =
          reverse_geocode (geo' i (center_lat (hs' ! i)) (center_lng (hs' ! i)))"
    if "i < length hs'" for i
    using hotspot_details_nth [OF hs' that] by auto
  have fail: "approximate_location (hs' ! i) = ''Unknown location''"
    if "i < length hs'"
      "geo' i (center_lat (hs' ! i)) (center_lng (hs' ! i)) = RequestRaised \<or>
         (\<exists>st rs. geo' i (center_lat (hs' ! i)) (center_lng (hs' ! i)) = GeoData st rs \<and>
            (st \<noteq> Some ''OK'' \<or> rs = []))" for i
    using lab [OF that(1)] reverse_geocode_failure [OF that(2)] by simp
  have c1: "total_places ?r' = total_places r" and c2: "grid_size ?r' = grid_size r"
    and c3: "map (\<lambda>h. h\<lparr>approximate_location := []\<rparr>) (hotspots ?r')
       = map (\<lambda>h. h\<lparr>approximate_location := []\<rparr>) (hotspots r)"
    using same by (simp_all add: r)
  have c4: "\<forall>i < length (hotspots ?r').
        approximate_location (hotspots ?r' ! i) =
          reverse_geocode (geo' i (center_lat (hotspots ?r' ! i)) (center_lng (hotspots ?r' ! i))) \<and>
        (geo' i (center_lat (hotspots ?r' ! i)) (center_lng (hotspots ?r' ! i)) = RequestRaised \<or>
         (\<exists>st rs. geo' i (center_lat (hotspots ?r' ! i)) (center_lng (hotspots ?r' ! i)) = GeoData st rs \<and>
            (st \<noteq> Some ''OK'' \<or> rs = []))
         \<longrightarrow> approximate_location (hotspots ?r' ! i) = ''Unknown location'')"
  proof (intro allI impI conjI)
    fix i
    assume "i < length (hotspots ?r')"
    then have i: "i < length hs'" by simp
    show "approximate_location (hotspots ?r' ! i) =
          reverse_geocode (geo' i (center_lat (hotspots ?r' ! i)) (center_lng (hotspots ?r' ! i)))"
      using lab [OF i] by simp
    assume "geo' i (center_lat (hotspots ?r' ! i)) (center_lng (hotspots ?r' ! i)) = RequestRaised \<or>
         (\<exists>st rs. geo' i (center_lat (hotspots ?r' ! i)) (center_lng (hotspots ?r' ! i)) = GeoData st rs \<and>
            (st \<noteq> Some ''OK'' \<or> rs = []))"
    then have "geo' i (center_lat (hs' ! i)) (center_lng (hs' ! i)) = RequestRaised \<or>
         (\<exists>st rs. geo' i (center_lat (hs' ! i)) (center_lng (hs' ! i)) = GeoData st rs \<and>
            (st \<noteq> Some ''OK'' \<or> rs = []))"
      by (simp only: report.simps)
    from fail [OF i this]
    show "approximate_location (hotspots ?r' ! i) = ''Unknown location''"
      by (simp only: report.simps)
  qed
  show ?thesis
    by (rule exI [of _ ?r']) (intro conjI res c1 c2 c3 c4)
qed

theorem labeler_failure_absorbed_witness:
  "\<exists>r. analyze_density offline (PyList diagonal) 4 = Inr r \<and>
   (\<exists>r'. analyze_density flaky (PyList diagonal) 4 = Inr r' \<and>
     total_places r' = total_places r \<and> grid_size r' = grid_size r \<and>
     map (\<lambda>h. h\<lparr>approximate_location := []\<rparr>) (hotspots r')
       = map (\<lambda>h. h\<lparr>approximate_location := []\<rparr>) (hotspots r) \<and>
     (\<forall>i < length (hotspots r').
        approximate_location (hotspots r' ! i) =
          reverse_geocode (flaky i (center_lat (hotspots r' ! i)) (center_lng (hotspots r' ! i))) \<and>
        (flaky i (center_lat (hotspots r' ! i)) (center_lng (hotspots r' ! i)) = RequestRaised \<or>
         (\<exists>st rs. flaky i (center_lat (hotspots r' ! i)) (center_lng (hotspots r' ! i)) = GeoData st rs \<and>
            (st \<noteq> Some ''OK'' \<or> rs = []))
         \<longrightarrow> approximate_location (hotspots r' ! i) = ''Unknown location'')))"
proof -
  have h: "analyze_density offline (PyList diagonal) 4 =
    Inr \<lparr>total_places = 5, grid_size = 4,
         hotspots =
           [\<lparr>grid_cell = ''1,1'', count = 2, center_lat = 9 / 8, center_lng = 9 / 8,
              approximate_location = ''Unknown location''\<rparr>,
            \<lparr>grid_cell = ''0,0'', count = 1, center_lat = 3 / 8, center_lng = 3 / 8,
              approximate_location = ''Unknown location''\<rparr>,
            \<lparr>grid_cell = ''2,2'', count = 1, center_lat = 15 / 8, center_lng = 15 / 8,
              approximate_location = ''Unknown location''\<rparr>]\<rparr>"
    by code_simp
  show ?thesis
    by (rule exI, rule conjI [OF h labeler_failure_absorbed [OF h, of flaky]])
qed

end
